theory Spec2Isabelle
  imports Complex_Main "HOL-Library.Word" "HOL-Library.Monad_Syntax"
begin

unbundle bit_operations_syntax

section \<open>Event records (Window\_Haiku.cpp, lines 23--34)\<close>

text \<open>
  \<^verbatim>\<open>enum CCEventType\<close>: the first enumerator \<open>CC_NONE\<close> has the value 0, so the C test
  \<^verbatim>\<open>if (event.type)\<close> is \<open>type event \<noteq> CC_NONE\<close>.
\<close>

datatype CCEventType =
    CC_NONE
  | CC_MOUSE_SCROLL | CC_MOUSE_DOWN | CC_MOUSE_UP | CC_MOUSE_MOVE
  | CC_KEY_DOWN | CC_KEY_UP | CC_KEY_INPUT
  | CC_WIN_RESIZED | CC_WIN_FOCUS | CC_WIN_REDRAW | CC_WIN_QUIT

text \<open>
  \<^verbatim>\<open>union CCEventValue { float f32; int i32; void* ptr; }\<close>: a payload slot holds what was
  last stored into it. A slot of a record declared without initialiser and never
  assigned is \<open>Indeterminate\<close>. Float payloads are carried as reals; nothing below
  depends on float rounding.
\<close>

datatype CCEventValue = I32 int | F32 real | Indeterminate

record CCEvent =
  type :: CCEventType
  v1 :: CCEventValue
  v2 :: CCEventValue

text \<open>\<^verbatim>\<open>CCEvent event = { 0 };\<close> (all bits zero).\<close>

definition CCEvent_zero :: CCEvent where
  "CCEvent_zero = \<lparr>type = CC_NONE, v1 = I32 0, v2 = I32 0\<rparr>"

section \<open>Calls into the rest of the application\<close>

text \<open>
  Functions of other translation units are not executed; each call is appended, with
  its arguments, to the trace \<open>calls\<close> of the global state.
\<close>

datatype call =
    Mouse_ScrollWheel real
  | Input_SetPressed int
  | Input_SetReleased int
  | Pointer_SetPosition int int int
  | Event_RaiseInt_Press int
  | Event_RaiseVoid_Resized
  | Event_RaiseVoid_FocusChanged
  | Event_RaiseVoid_RedrawNeeded
  | Event_RaiseVoid_Closing
  | Platform_Log2 string int int
  | Platform_LogConst string
  | CallOpenFileCallback string
  | BApplication_DispatchMessage
  | BWindow_DispatchMessage
  | Read_of_unwritten_member
  | Input_SetNonRepeatable int bool

section \<open>Global state of the toolkit backend\<close>

text \<open>
  The file's static variables. \<open>events_list\<close> is the storage the pointer
  \<^verbatim>\<open>events_list\<close> points to (\<open>events_capacity\<close> slots); \<open>events_count\<close> is never
  negative in the source (it starts at 0, is incremented by a push and decremented
  only when non-zero), so it is a \<open>nat\<close>.
\<close>

record globals =
  events_count :: nat
  events_capacity :: nat
  events_list :: "CCEvent list"
  last_buttons :: int
  WindowInfo_Width :: int
  WindowInfo_Height :: int
  WindowInfo_Focused :: int
  WindowInfo_Exists :: bool
  calls :: "call list"

text \<open>Static storage is zero-initialised before \<^verbatim>\<open>Window_Init\<close> runs.\<close>

definition globals_0 :: globals where
  "globals_0 = \<lparr>events_count = 0, events_capacity = 0, events_list = [],
     last_buttons = 0, WindowInfo_Width = 0, WindowInfo_Height = 0,
     WindowInfo_Focused = 0, WindowInfo_Exists = False, calls = []\<rparr>"

section \<open>The event queue (lines 36--75)\<close>

definition EVENTS_DEFAULT_MAX :: nat where
  "EVENTS_DEFAULT_MAX = 20"

text \<open>\<^verbatim>\<open>Events_Init\<close>: the list points to the static array \<^verbatim>\<open>events_default\<close>.\<close>

definition Events_Init :: "globals \<Rightarrow> globals" where
  "Events_Init g = g\<lparr>events_capacity := EVENTS_DEFAULT_MAX,
     events_list := replicate EVENTS_DEFAULT_MAX CCEvent_zero\<rparr>"

text \<open>
  Modelled from the spec: \<^verbatim>\<open>Utils_Resize\<close> is defined in Utils.c, which is not among
  the sources. The spec says of it that the queue "grows by reallocation plus copy when
  full, preserving order" by a "fixed increment". The arguments are those of the call in
  \<^verbatim>\<open>Events_Push\<close>: buffer, capacity, default capacity, number of slots to add; the element
  size is implicit. The contents of the added slots are not specified; they are filled
  with \<open>CCEvent_zero\<close> here and no theorem below reads a slot at or beyond
  \<open>events_count\<close>.
\<close>

definition Utils_Resize :: "CCEvent list \<Rightarrow> nat \<Rightarrow> nat \<Rightarrow> nat \<Rightarrow> CCEvent list \<times> nat" where
  "Utils_Resize buffer capacity defCapacity expandElems =
     (take capacity buffer @ replicate expandElems CCEvent_zero, capacity + expandElems)"

text \<open>
  \<^verbatim>\<open>Events_Push\<close>. The body runs between \<^verbatim>\<open>Mutex_Lock\<close> and \<^verbatim>\<open>Mutex_Unlock\<close>, so it is
  one atomic step on the state.
\<close>

definition Events_Push :: "CCEvent \<Rightarrow> globals \<Rightarrow> globals" where
  "Events_Push event g =
     (let g1 = (if events_count g \<ge> events_capacity g
                then (case Utils_Resize (events_list g) (events_capacity g) EVENTS_DEFAULT_MAX 20 of
                        (l, c) \<Rightarrow> g\<lparr>events_list := l, events_capacity := c\<rparr>)
                else g)
      in g1\<lparr>events_list := (events_list g1)[events_count g1 := event],
            events_count := events_count g1 + 1\<rparr>)"

text \<open>
  The loop of \<^verbatim>\<open>Events_Pull\<close>:
  \<^verbatim>\<open>for (int i = 1; i < events_count; i++) events_list[i - 1] = events_list[i];\<close>
\<close>

function Events_Pull_loop :: "nat \<Rightarrow> globals \<Rightarrow> globals" where
  "Events_Pull_loop i g =
     (if i < events_count g
      then Events_Pull_loop (i + 1) (g\<lparr>events_list := (events_list g)[i - 1 := events_list g ! i]\<rparr>)
      else g)"
  by pat_completeness auto
termination
  by (relation "measure (\<lambda>(i, g). events_count g - i)") auto

declare Events_Pull_loop.simps [simp del]

text \<open>
  \<^verbatim>\<open>Events_Pull\<close>: the result \<open>Some e\<close> is the return value \<^verbatim>\<open>true\<close> with \<^verbatim>\<open>*event = e\<close>;
  \<open>None\<close> is the return value \<^verbatim>\<open>false\<close> (the out-parameter is left untouched).
\<close>

definition Events_Pull :: "globals \<Rightarrow> CCEvent option \<times> globals" where
  "Events_Pull g =
     (if events_count g \<noteq> 0
      then (let event = events_list g ! 0;
                g1 = Events_Pull_loop 1 g
            in (Some event, g1\<lparr>events_count := events_count g1 - 1\<rparr>))
      else (None, g))"

subsection \<open>Abstraction of the queue\<close>

text \<open>The queued records: the first \<open>events_count\<close> slots, head first.\<close>

definition queue :: "globals \<Rightarrow> CCEvent list" where
  "queue g = take (events_count g) (events_list g)"

text \<open>The count is within the storage, and the storage has \<open>events_capacity\<close> slots.\<close>

definition queue_inv :: "globals \<Rightarrow> bool" where
  "queue_inv g = (events_count g \<le> events_capacity g \<and> length (events_list g) = events_capacity g)"

subsection \<open>Runs of the queue\<close>

datatype queue_op = Push CCEvent | Pull

text \<open>A producer's pushes interleaved with the consumer's pulls; the results of the pulls.\<close>

fun run_ops :: "queue_op list \<Rightarrow> globals \<Rightarrow> CCEvent option list \<times> globals" where
  "run_ops [] g = ([], g)"
| "run_ops (Push e # ops) g = run_ops ops (Events_Push e g)"
| "run_ops (Pull # ops) g =
     (case Events_Pull g of (r, g') \<Rightarrow>
        (case run_ops ops g' of (rs, g'') \<Rightarrow> (r # rs, g'')))"

text \<open>
  The queue of the spec, in its words: push appends at the tail, pull removes and
  returns the head, or returns nothing when the queue is empty.
\<close>

fun fifo_ops :: "queue_op list \<Rightarrow> CCEvent list \<Rightarrow> CCEvent option list \<times> CCEvent list" where
  "fifo_ops [] q = ([], q)"
| "fifo_ops (Push e # ops) q = fifo_ops ops (q @ [e])"
| "fifo_ops (Pull # ops) [] = (case fifo_ops ops [] of (rs, q') \<Rightarrow> (None # rs, q'))"
| "fifo_ops (Pull # ops) (x # q) = (case fifo_ops ops q of (rs, q') \<Rightarrow> (Some x # rs, q'))"

text \<open>The records passed to \<^verbatim>\<open>Events_Push\<close>, and those returned by successful pulls.\<close>

fun pushed :: "queue_op list \<Rightarrow> CCEvent list" where
  "pushed [] = []"
| "pushed (Push e # ops) = e # pushed ops"
| "pushed (Pull # ops) = pushed ops"

fun pulled :: "CCEvent option list \<Rightarrow> CCEvent list" where
  "pulled [] = []"
| "pulled (Some e # rs) = e # pulled rs"
| "pulled (None # rs) = pulled rs"

text \<open>Test data: \<open>n\<close> distinct text-input records.\<close>

definition key_inputs :: "nat \<Rightarrow> CCEvent list" where
  "key_inputs n = map (\<lambda>i. \<lparr>type = CC_KEY_INPUT, v1 = I32 (int i), v2 = Indeterminate\<rparr>) [0..<n]"

text \<open>Pull until \<^verbatim>\<open>Events_Pull\<close> returns false.\<close>

function Events_PullAll :: "globals \<Rightarrow> CCEvent list \<times> globals" where
  "Events_PullAll g =
     (case Events_Pull g of
        (None, g') \<Rightarrow> ([], g')
      | (Some e, g') \<Rightarrow> (case Events_PullAll g' of (es, g'') \<Rightarrow> (e # es, g'')))"
  by pat_completeness auto

lemma Events_Pull_loop_count [simp]:
  "events_count (Events_Pull_loop i g) = events_count g"
proof (induction i g rule: Events_Pull_loop.induct)
  case (1 i g)
  show ?case
  proof (cases "i < events_count g")
    case True
    with "1" show ?thesis by (subst Events_Pull_loop.simps) simp
  next
    case False
    then show ?thesis by (subst Events_Pull_loop.simps) simp
  qed
qed

lemma Events_Pull_Some_count:
  "Events_Pull g = (Some e, g') \<Longrightarrow> events_count g' < events_count g"
  by (auto simp: Events_Pull_def Let_def split: if_splits)

termination Events_PullAll
proof (relation "measure events_count")
  show "wf (measure events_count)" by simp
next
  fix g x y e
  assume "(x, y) = Events_Pull g" and "x = Some e"
  then have "Events_Pull g = (Some e, y)" by simp
  then show "(y, g) \<in> measure events_count"
    by (simp add: Events_Pull_Some_count)
qed

declare Events_PullAll.simps [simp del]

section \<open>Constants of other headers\<close>

text \<open>
  The enumerators of the canonical key vocabulary (\<^verbatim>\<open>KEY_ESCAPE\<close>, \<^verbatim>\<open>KEY_LMOUSE\<close>,
  \<^verbatim>\<open>CCKEY_SPACE\<close>, ...) are declared in Input.h, which is not among the sources. Their
  values are a parameter \<open>K\<close> of every function that uses one: \<open>K\<close> maps the enumerator's
  name to its value. Every theorem below holds for every \<open>K\<close>.
\<close>

type_synonym input_codes = "string \<Rightarrow> int"

text \<open>
  The mouse button masks of the toolkit (InterfaceDefs.h of the operating system):
  the three lowest bits.
\<close>

definition B_PRIMARY_MOUSE_BUTTON :: int where
  "B_PRIMARY_MOUSE_BUTTON = 1"

definition B_SECONDARY_MOUSE_BUTTON :: int where
  "B_SECONDARY_MOUSE_BUTTON = 2"

definition B_TERTIARY_MOUSE_BUTTON :: int where
  "B_TERTIARY_MOUSE_BUTTON = 4"

section \<open>Toolkit messages\<close>

text \<open>
  \<^verbatim>\<open>msg->what\<close>: the message codes the two \<^verbatim>\<open>DispatchMessage\<close> methods switch on, and
  \<open>B_OTHER n\<close> for every other code. \<open>B_UPDATE\<close> is the code \<^verbatim>\<open>_UPDATE_\<close>.
\<close>

datatype msg_what =
    B_KEY_DOWN | B_UNMAPPED_KEY_DOWN | B_KEY_UP | B_UNMAPPED_KEY_UP
  | B_MOUSE_DOWN | B_MOUSE_UP | B_MOUSE_MOVED | B_MOUSE_WHEEL_CHANGED
  | B_WINDOW_ACTIVATED | B_WINDOW_MOVED | B_WINDOW_RESIZED
  | B_QUIT_REQUESTED | B_UPDATE | B_REFS_RECEIVED
  | B_OTHER nat

text \<open>
  The typed fields of a message. A \<^verbatim>\<open>Find...\<close> call succeeds (\<^verbatim>\<open>B_OK\<close>) when the message
  has a field of that name and type. A string field holds the bytes of a C string
  without the terminating NUL; a ref field is given by the path \<^verbatim>\<open>BPath(&ref).Path()\<close>.
\<close>

datatype field_value =
    Int32 int
  | Point real real
  | Float real
  | Bool bool
  | String string
  | Ref string

record BMessage =
  what :: msg_what
  msg_fields :: "(string \<times> field_value) list"

definition FindInt32 :: "BMessage \<Rightarrow> string \<Rightarrow> int option" where
  "FindInt32 msg name = (case map_of (msg_fields msg) name of Some (Int32 v) \<Rightarrow> Some v | _ \<Rightarrow> None)"

definition FindPoint :: "BMessage \<Rightarrow> string \<Rightarrow> (real \<times> real) option" where
  "FindPoint msg name = (case map_of (msg_fields msg) name of Some (Point px py) \<Rightarrow> Some (px, py) | _ \<Rightarrow> None)"

definition FindFloat :: "BMessage \<Rightarrow> string \<Rightarrow> real option" where
  "FindFloat msg name = (case map_of (msg_fields msg) name of Some (Float v) \<Rightarrow> Some v | _ \<Rightarrow> None)"

definition FindBool :: "BMessage \<Rightarrow> string \<Rightarrow> bool option" where
  "FindBool msg name = (case map_of (msg_fields msg) name of Some (Bool v) \<Rightarrow> Some v | _ \<Rightarrow> None)"

definition FindString :: "BMessage \<Rightarrow> string \<Rightarrow> string option" where
  "FindString msg name = (case map_of (msg_fields msg) name of Some (String v) \<Rightarrow> Some v | _ \<Rightarrow> None)"

definition FindRef :: "BMessage \<Rightarrow> string \<Rightarrow> string option" where
  "FindRef msg name = (case map_of (msg_fields msg) name of Some (Ref v) \<Rightarrow> Some v | _ \<Rightarrow> None)"

text \<open>Conversion of a float to \<^verbatim>\<open>int\<close> (\<^verbatim>\<open>event.v1.i32 = where.x\<close>): towards zero.\<close>

definition float_to_int :: "real \<Rightarrow> int" where
  "float_to_int r = (if 0 \<le> r then \<lfloor>r\<rfloor> else \<lceil>r\<rceil>)"

definition add_call :: "call \<Rightarrow> globals \<Rightarrow> globals" where
  "add_call c g = g\<lparr>calls := calls g @ [c]\<rparr>"

section \<open>The native event translator (lines 77--225)\<close>

text \<open>
  \<^verbatim>\<open>CC_BApp::DispatchMessage\<close>. \<^verbatim>\<open>CallOpenFileCallback\<close> (lines 519--527) touches only the
  file dialog's callback, so it is recorded as a call.
\<close>

definition CC_BApp_DispatchMessage :: "BMessage \<Rightarrow> globals \<Rightarrow> globals" where
  "CC_BApp_DispatchMessage msg g =
     (let event = CCEvent_zero;
          (event, g) =
            (case what msg of
               B_QUIT_REQUESTED \<Rightarrow>
                 (event\<lparr>type := CC_WIN_QUIT\<rparr>, add_call (Platform_LogConst ''APP QUIT'') g)
             | B_REFS_RECEIVED \<Rightarrow>
                 (case FindRef msg ''refs'' of
                    Some path \<Rightarrow> (event, add_call (CallOpenFileCallback path) g)
                  | None \<Rightarrow> (event, g))
             | _ \<Rightarrow> (event, g));
          g = (if type event \<noteq> CC_NONE then Events_Push event g else g)
      in add_call BApplication_DispatchMessage g)"

text \<open>
  \<^verbatim>\<open>ProcessKeyInput\<close>. \<^verbatim>\<open>Convert_Utf8ToCodepoint\<close> is defined in String.c, which is not among
  the sources; it is the parameter \<open>utf8\<close>: given the bytes and their number it returns
  the code point and the number of bytes it decoded (0 when decoding fails). The record
  is declared without initialiser, so its second slot is never written.
\<close>

type_synonym utf8_decoder = "string \<Rightarrow> nat \<Rightarrow> int \<times> nat"

definition ProcessKeyInput :: "utf8_decoder \<Rightarrow> BMessage \<Rightarrow> globals \<Rightarrow> globals" where
  "ProcessKeyInput utf8 msg g =
     (case FindString msg ''bytes'' of
        None \<Rightarrow> g
      | Some val \<Rightarrow>
          (case utf8 val (length val) of (cp, decoded) \<Rightarrow>
             if decoded = 0 then g
             else Events_Push \<lparr>type = CC_KEY_INPUT, v1 = I32 cp, v2 = Indeterminate\<rparr> g))"

definition UpdateMouseButton :: "int \<Rightarrow> int \<Rightarrow> globals \<Rightarrow> globals" where
  "UpdateMouseButton btn pressed g =
     Events_Push \<lparr>type = (if pressed \<noteq> 0 then CC_MOUSE_DOWN else CC_MOUSE_UP),
                  v1 = I32 btn, v2 = Indeterminate\<rparr> g"

definition UpdateMouseButtons :: "input_codes \<Rightarrow> int \<Rightarrow> globals \<Rightarrow> globals" where
  "UpdateMouseButtons K buttons g =
     (let changed = buttons XOR last_buttons g;
          g = (if changed AND B_PRIMARY_MOUSE_BUTTON \<noteq> 0
               then UpdateMouseButton (K ''KEY_LMOUSE'') (buttons AND B_PRIMARY_MOUSE_BUTTON) g
               else g);
          g = (if changed AND B_SECONDARY_MOUSE_BUTTON \<noteq> 0
               then UpdateMouseButton (K ''KEY_RMOUSE'') (buttons AND B_SECONDARY_MOUSE_BUTTON) g
               else g);
          g = (if changed AND B_TERTIARY_MOUSE_BUTTON \<noteq> 0
               then UpdateMouseButton (K ''KEY_MMOUSE'') (buttons AND B_TERTIARY_MOUSE_BUTTON) g
               else g)
      in g\<lparr>last_buttons := buttons\<rparr>)"

text \<open>
  \<^verbatim>\<open>CC_BWindow::DispatchMessage\<close>: the switch fills \<open>event\<close> (or pushes button edges), then
  the record is pushed if its type was set, then a \<^verbatim>\<open>B_KEY_DOWN\<close> message is handed to
  \<^verbatim>\<open>ProcessKeyInput\<close>, then the message goes to the base class.
\<close>

definition CC_BWindow_switch :: "input_codes \<Rightarrow> BMessage \<Rightarrow> globals \<Rightarrow> CCEvent \<times> globals" where
  "CC_BWindow_switch K msg g =
     (let event = CCEvent_zero in
      case what msg of
        B_KEY_DOWN \<Rightarrow>
          (case FindInt32 msg ''key'' of
             Some val \<Rightarrow> (event\<lparr>type := CC_KEY_DOWN, v1 := I32 val\<rparr>, g)
           | None \<Rightarrow> (event, g))
      | B_UNMAPPED_KEY_DOWN \<Rightarrow>
          (case FindInt32 msg ''key'' of
             Some val \<Rightarrow> (event\<lparr>type := CC_KEY_DOWN, v1 := I32 val\<rparr>, g)
           | None \<Rightarrow> (event, g))
      | B_KEY_UP \<Rightarrow>
          (case FindInt32 msg ''key'' of
             Some val \<Rightarrow> (event\<lparr>type := CC_KEY_UP, v1 := I32 val\<rparr>, g)
           | None \<Rightarrow> (event, g))
      | B_UNMAPPED_KEY_UP \<Rightarrow>
          (case FindInt32 msg ''key'' of
             Some val \<Rightarrow> (event\<lparr>type := CC_KEY_UP, v1 := I32 val\<rparr>, g)
           | None \<Rightarrow> (event, g))
      | B_MOUSE_DOWN \<Rightarrow>
          (case FindInt32 msg ''buttons'' of
             Some val \<Rightarrow> (event, UpdateMouseButtons K val g)
           | None \<Rightarrow> (event, g))
      | B_MOUSE_UP \<Rightarrow>
          (case FindInt32 msg ''buttons'' of
             Some val \<Rightarrow> (event, UpdateMouseButtons K val g)
           | None \<Rightarrow> (event, g))
      | B_MOUSE_MOVED \<Rightarrow>
          (case FindPoint msg ''where'' of
             Some (wx, wy) \<Rightarrow>
               (event\<lparr>type := CC_MOUSE_MOVE, v1 := I32 (float_to_int wx),
                       v2 := I32 (float_to_int wy)\<rparr>, g)
           | None \<Rightarrow> (event, g))
      | B_MOUSE_WHEEL_CHANGED \<Rightarrow>
          (case FindFloat msg ''be:wheel_delta_y'' of
             Some delta \<Rightarrow> (event\<lparr>type := CC_MOUSE_SCROLL, v1 := F32 (- delta)\<rparr>, g)
           | None \<Rightarrow> (event, g))
      | B_WINDOW_ACTIVATED \<Rightarrow>
          (case FindBool msg ''active'' of
             Some active \<Rightarrow>
               (event\<lparr>type := CC_WIN_FOCUS, v1 := I32 (if active then 1 else 0)\<rparr>, g)
           | None \<Rightarrow> (event, g))
      | B_WINDOW_MOVED \<Rightarrow> (event, g)
      | B_WINDOW_RESIZED \<Rightarrow>
          (case FindInt32 msg ''width'' of
             Some w \<Rightarrow>
               (case FindInt32 msg ''height'' of
                  Some h \<Rightarrow> (event\<lparr>type := CC_WIN_RESIZED, v1 := I32 (w + 1), v2 := I32 (h + 1)\<rparr>, g)
                | None \<Rightarrow> (event, g))
           | None \<Rightarrow> (event, g))
      | B_QUIT_REQUESTED \<Rightarrow>
          (event\<lparr>type := CC_WIN_QUIT\<rparr>, add_call (Platform_LogConst ''WINQUIT'') g)
      | B_UPDATE \<Rightarrow> (event\<lparr>type := CC_WIN_REDRAW\<rparr>, g)
      | _ \<Rightarrow> (event, g))"

definition CC_BWindow_DispatchMessage ::
    "input_codes \<Rightarrow> utf8_decoder \<Rightarrow> BMessage \<Rightarrow> globals \<Rightarrow> globals" where
  "CC_BWindow_DispatchMessage K utf8 msg g =
     (case CC_BWindow_switch K msg g of (event, g) \<Rightarrow>
        (let g = (if type event \<noteq> CC_NONE then Events_Push event g else g);
             g = (if what msg = B_KEY_DOWN then ProcessKeyInput utf8 msg g else g)
         in add_call BWindow_DispatchMessage g))"

text \<open>
  The edges of the spec, in its words: one MouseDown or MouseUp record per changed bit,
  in the order primary (Left), secondary (Right), tertiary (Middle); nothing for an
  unchanged bit. Bit \<open>n\<close> of the mask is pressed when it is set.
\<close>

definition button_edge :: "int \<Rightarrow> nat \<Rightarrow> int \<Rightarrow> int \<Rightarrow> CCEvent list" where
  "button_edge btn n old new =
     (if bit old n = bit new n then []
      else [\<lparr>type = (if bit new n then CC_MOUSE_DOWN else CC_MOUSE_UP),
              v1 = I32 btn, v2 = Indeterminate\<rparr>])"

fun button_edges :: "input_codes \<Rightarrow> int \<Rightarrow> int list \<Rightarrow> CCEvent list" where
  "button_edges K old [] = []"
| "button_edges K old (new # bs) =
     button_edge (K ''KEY_LMOUSE'') 0 old new @ button_edge (K ''KEY_RMOUSE'') 1 old new
       @ button_edge (K ''KEY_MMOUSE'') 2 old new @ button_edges K new bs"

subsection \<open>The records a step appends to the queue\<close>

text \<open>
  \<open>only_appends g g'\<close>: the queue of \<open>g'\<close> starts with the queue of \<open>g\<close>;
  \<open>appended g g'\<close> are the records behind it, that is, the records pushed between the
  two states when nothing was pulled.
\<close>

definition only_appends :: "globals \<Rightarrow> globals \<Rightarrow> bool" where
  "only_appends g g' = (take (length (queue g)) (queue g') = queue g)"

definition appended :: "globals \<Rightarrow> globals \<Rightarrow> CCEvent list" where
  "appended g g' = drop (length (queue g)) (queue g')"

definition no_none_pushed :: "globals \<Rightarrow> globals \<Rightarrow> bool" where
  "no_none_pushed g g' = (only_appends g g' \<and> (\<forall>e\<in>set (appended g g'). type e \<noteq> CC_NONE))"

text \<open>A decoder for the witness: one ASCII byte decodes to itself, anything else fails.\<close>

definition ascii_decoder :: utf8_decoder where
  "ascii_decoder val len = (case val of
      [c] \<Rightarrow> if len = 1 \<and> (of_char c :: nat) < 128 then (of_char c, 1) else (0, 0)
    | _ \<Rightarrow> (0, 0))"

section \<open>The event pump of the toolkit backend (lines 388--460)\<close>

text \<open>Conversion to \<^verbatim>\<open>cc_uint8\<close>, the element type of \<^verbatim>\<open>key_map\<close>.\<close>

definition u8 :: "int \<Rightarrow> int" where
  "u8 v = v mod 256"

text \<open>\<^verbatim>\<open>key_map\<close>: 0x70 entries, four per line here, in the order of the source.\<close>

definition key_map :: "input_codes \<Rightarrow> int list" where
  "key_map K = map u8
     [
       0, K ''KEY_ESCAPE'', K ''KEY_F1'', K ''KEY_F2'',
       K ''KEY_F3'', K ''KEY_F4'', K ''KEY_F5'', K ''KEY_F6'',
       K ''KEY_F7'', K ''KEY_F8'', K ''KEY_F9'', K ''KEY_F10'',
       K ''KEY_F11'', K ''KEY_F12'', K ''KEY_PRINTSCREEN'', K ''KEY_SCROLLLOCK'',
       K ''KEY_PAUSE'', K ''KEY_TILDE'', of_char CHR ''1'', of_char CHR ''2'',
       of_char CHR ''3'', of_char CHR ''4'', of_char CHR ''5'', of_char CHR ''6'',
       of_char CHR ''7'', of_char CHR ''8'', of_char CHR ''9'', of_char CHR ''0'',
       K ''KEY_MINUS'', K ''KEY_EQUALS'', K ''KEY_BACKSPACE'', K ''KEY_INSERT'',
       K ''KEY_HOME'', K ''KEY_PAGEUP'', K ''KEY_NUMLOCK'', K ''KEY_KP_DIVIDE'',
       K ''KEY_KP_MULTIPLY'', K ''KEY_KP_MINUS'', K ''KEY_TAB'', of_char CHR ''Q'',
       of_char CHR ''W'', of_char CHR ''E'', of_char CHR ''R'', of_char CHR ''T'',
       of_char CHR ''Y'', of_char CHR ''U'', of_char CHR ''I'', of_char CHR ''O'',
       of_char CHR ''P'', K ''KEY_LBRACKET'', K ''KEY_RBRACKET'', K ''KEY_BACKSLASH'',
       K ''KEY_DELETE'', K ''KEY_END'', K ''KEY_PAGEDOWN'', K ''KEY_KP7'',
       K ''KEY_KP8'', K ''KEY_KP9'', K ''KEY_KP_PLUS'', K ''KEY_CAPSLOCK'',
       of_char CHR ''A'', of_char CHR ''S'', of_char CHR ''D'', of_char CHR ''F'',
       of_char CHR ''G'', of_char CHR ''H'', of_char CHR ''J'', of_char CHR ''K'',
       of_char CHR ''L'', K ''KEY_SEMICOLON'', K ''KEY_QUOTE'', K ''KEY_ENTER'',
       K ''KEY_KP4'', K ''KEY_KP5'', K ''KEY_KP6'', K ''KEY_LSHIFT'',
       of_char CHR ''Z'', of_char CHR ''X'', of_char CHR ''C'', of_char CHR ''V'',
       of_char CHR ''B'', of_char CHR ''N'', of_char CHR ''M'', K ''KEY_COMMA'',
       K ''KEY_PERIOD'', K ''KEY_SLASH'', K ''KEY_RSHIFT'', K ''KEY_UP'',
       K ''KEY_KP1'', K ''KEY_KP2'', K ''KEY_KP3'', K ''KEY_KP_ENTER'',
       K ''KEY_LCTRL'', K ''KEY_LALT'', K ''KEY_SPACE'', K ''KEY_RALT'',
       K ''KEY_RCTRL'', K ''KEY_LEFT'', K ''KEY_DOWN'', K ''KEY_RIGHT'',
       K ''KEY_KP0'', K ''KEY_KP_DECIMAL'', K ''KEY_LWIN'', 0,
       K ''KEY_RWIN'', 0, 0, 0,
       0, 0, 0, 0
     ]"

text \<open>
  \<^verbatim>\<open>MapNativeKey\<close>. \<^verbatim>\<open>Array_Elems(key_map)\<close> is the number of entries; the table is read
  only when \<open>raw\<close> is within it.
\<close>

definition MapNativeKey :: "input_codes \<Rightarrow> int \<Rightarrow> globals \<Rightarrow> int \<times> globals" where
  "MapNativeKey K raw g =
     (let key = (if raw \<ge> 0 \<and> raw < int (length (key_map K)) then key_map K ! nat raw else 0);
          g = (if key = 0 then add_call (Platform_Log2 ''Unknown key: %i (%h)'' raw raw) g else g)
      in (key, g))"

text \<open>
  Reading a payload slot as \<^verbatim>\<open>.i32\<close> or \<^verbatim>\<open>.f32\<close>. The pump reads, for each record type,
  the member the translator wrote. Reading a member that was not the one written has no
  value in this model: the step is recorded as \<open>Read_of_unwritten_member\<close> and makes
  no other call.
\<close>

definition read_i32 :: "CCEventValue \<Rightarrow> (int \<Rightarrow> globals \<Rightarrow> globals) \<Rightarrow> globals \<Rightarrow> globals" where
  "read_i32 v f g = (case v of I32 n \<Rightarrow> f n g | _ \<Rightarrow> add_call Read_of_unwritten_member g)"

definition read_f32 :: "CCEventValue \<Rightarrow> (real \<Rightarrow> globals \<Rightarrow> globals) \<Rightarrow> globals \<Rightarrow> globals" where
  "read_f32 v f g = (case v of F32 r \<Rightarrow> f r g | _ \<Rightarrow> add_call Read_of_unwritten_member g)"

text \<open>The body of the loop of \<^verbatim>\<open>Window_ProcessEvents\<close>: the switch on the record's type.\<close>

definition Window_ProcessEvents_switch :: "input_codes \<Rightarrow> CCEvent \<Rightarrow> globals \<Rightarrow> globals" where
  "Window_ProcessEvents_switch K event g =
     (case type event of
        CC_MOUSE_SCROLL \<Rightarrow> read_f32 (v1 event) (\<lambda>d. add_call (Mouse_ScrollWheel d)) g
      | CC_MOUSE_DOWN \<Rightarrow> read_i32 (v1 event) (\<lambda>b. add_call (Input_SetPressed b)) g
      | CC_MOUSE_UP \<Rightarrow> read_i32 (v1 event) (\<lambda>b. add_call (Input_SetReleased b)) g
      | CC_MOUSE_MOVE \<Rightarrow>
          read_i32 (v1 event) (\<lambda>px. read_i32 (v2 event) (\<lambda>py. add_call (Pointer_SetPosition 0 px py))) g
      | CC_KEY_DOWN \<Rightarrow>
          read_i32 (v1 event)
            (\<lambda>raw g. case MapNativeKey K raw g of (key, g) \<Rightarrow>
                        if key \<noteq> 0 then add_call (Input_SetPressed key) g else g) g
      | CC_KEY_UP \<Rightarrow>
          read_i32 (v1 event)
            (\<lambda>raw g. case MapNativeKey K raw g of (key, g) \<Rightarrow>
                        if key \<noteq> 0 then add_call (Input_SetReleased key) g else g) g
      | CC_KEY_INPUT \<Rightarrow> read_i32 (v1 event) (\<lambda>cp. add_call (Event_RaiseInt_Press cp)) g
      | CC_WIN_RESIZED \<Rightarrow>
          read_i32 (v1 event) (\<lambda>w. read_i32 (v2 event) (\<lambda>h g.
            add_call Event_RaiseVoid_Resized (g\<lparr>WindowInfo_Width := w, WindowInfo_Height := h\<rparr>))) g
      | CC_WIN_FOCUS \<Rightarrow>
          read_i32 (v1 event) (\<lambda>f g.
            add_call Event_RaiseVoid_FocusChanged (g\<lparr>WindowInfo_Focused := f\<rparr>)) g
      | CC_WIN_REDRAW \<Rightarrow> add_call Event_RaiseVoid_RedrawNeeded g
      | CC_WIN_QUIT \<Rightarrow> add_call Event_RaiseVoid_Closing (g\<lparr>WindowInfo_Exists := False\<rparr>)
      | CC_NONE \<Rightarrow> g)"

text \<open>The calls the switch makes for one record.\<close>

definition switch_calls :: "input_codes \<Rightarrow> CCEvent \<Rightarrow> call list" where
  "switch_calls K event = calls (Window_ProcessEvents_switch K event globals_0)"

text \<open>\<^verbatim>\<open>Window_ProcessEvents\<close>: \<^verbatim>\<open>while (Events_Pull(&event)) { switch ... }\<close>.\<close>

function Window_ProcessEvents :: "input_codes \<Rightarrow> globals \<Rightarrow> globals" where
  "Window_ProcessEvents K g =
     (case Events_Pull g of
        (None, g') \<Rightarrow> g'
      | (Some event, g') \<Rightarrow> Window_ProcessEvents K (Window_ProcessEvents_switch K event g'))"
  by pat_completeness auto

lemma add_call_count [simp]: "events_count (add_call c g) = events_count g"
  by (simp add: add_call_def)

lemma Window_ProcessEvents_switch_count [simp]:
  "events_count (Window_ProcessEvents_switch K event g) = events_count g"
  by (cases "type event")
     (auto simp: Window_ProcessEvents_switch_def read_i32_def read_f32_def MapNativeKey_def Let_def
        split: CCEventValue.splits)

termination Window_ProcessEvents
proof (relation "measure (\<lambda>(K, g). events_count g)")
  show "wf (measure (\<lambda>(K, g). events_count g))" by simp
next
  fix K g x y event
  assume "(x, y) = Events_Pull g" and "x = Some event"
  then have "Events_Pull g = (Some event, y)" by simp
  then show "((K, Window_ProcessEvents_switch K event y), (K, g)) \<in> measure (\<lambda>(K, g). events_count g)"
    by (simp add: Events_Pull_Some_count)
qed

declare Window_ProcessEvents.simps [simp del]

text \<open>Test data: a queue of four key records, two of them with unmapped codes.\<close>

definition pump_example :: globals where
  "pump_example = fold Events_Push
     [\<lparr>type = CC_KEY_DOWN, v1 = I32 40, v2 = I32 0\<rparr>,
      \<lparr>type = CC_KEY_DOWN, v1 = I32 200, v2 = I32 0\<rparr>,
      \<lparr>type = CC_KEY_UP, v1 = I32 103, v2 = I32 0\<rparr>,
      \<lparr>type = CC_KEY_UP, v1 = I32 40, v2 = I32 0\<rparr>] (Events_Init globals_0)"

section \<open>The terminal backend: state and wire protocol (lines 639--716)\<close>

text \<open>
  The second part of the source file is the terminal backend. Its functions
  \<^verbatim>\<open>Window_ProcessEvents\<close> and \<^verbatim>\<open>Window_DrawFramebuffer\<close> carry the suffix \<open>_Terminal\<close> here,
  since the toolkit backend defines functions of the same names.
\<close>

text \<open>
  \<^verbatim>\<open>struct termios\<close>: the local-mode flags as a set of flags (\<^verbatim>\<open>ECHO\<close>, \<^verbatim>\<open>ICANON\<close> and the
  others), so that \<^verbatim>\<open>c_lflag &= ~(ECHO | ICANON)\<close> removes the two flags.
\<close>

datatype lflag = ECHO | ICANON | LFLAG nat

record termios =
  c_lflag :: "lflag set"

text \<open>
  The static variables of the backend, the terminal device (\<open>tty\<close>: its attributes,
  \<open>stdout\<close>: the bytes written to it), the fields of \<^verbatim>\<open>DisplayInfo\<close> and \<^verbatim>\<open>Window_Main\<close>
  that the backend assigns, and the trace of calls into the application.
\<close>

record term_globals =
  tio :: termios
  ws_col :: int
  ws_row :: int
  pendingResize :: bool
  pendingClose :: bool
  tty :: termios
  stdout :: string
  DisplayInfo_Width :: int
  DisplayInfo_Height :: int
  DisplayInfo_Depth :: int
  DisplayInfo_ScaleX :: real
  DisplayInfo_ScaleY :: real
  Window_Main_Width :: int
  Window_Main_Height :: int
  Window_Main_Exists :: bool
  term_calls :: "call list"

definition term_call :: "call \<Rightarrow> term_globals \<Rightarrow> term_globals" where
  "term_call c t = t\<lparr>term_calls := term_calls t @ [c]\<rparr>"

text \<open>
  \<^verbatim>\<open>printf\<close> of a format without conversions: the bytes of the format are written.
\<close>

definition printf :: "string \<Rightarrow> term_globals \<Rightarrow> term_globals" where
  "printf s t = t\<lparr>stdout := stdout t @ s\<rparr>"

definition CSI :: string where
  "CSI = [CHR 0x1B, CHR ''['']"

definition ERASE_CMD :: "string \<Rightarrow> string" where
  "ERASE_CMD cmd = CSI @ cmd @ ''J''"

definition DEC_PM_SET :: "string \<Rightarrow> string" where
  "DEC_PM_SET cmd = CSI @ ''?'' @ cmd @ ''h''"

text \<open>The source has the digit one here: \<^verbatim>\<open>#define DEC_PM_RESET(cmd) CSI "?" cmd "1"\<close>.\<close>

definition DEC_PM_RESET :: "string \<Rightarrow> string" where
  "DEC_PM_RESET cmd = CSI @ ''?'' @ cmd @ ''1''"

text \<open>
  \<^verbatim>\<open>UpdateDimensions\<close>; \<open>winsize\<close> is what \<^verbatim>\<open>ioctl(STDOUT_FILENO, TIOCGWINSZ, &ws)\<close> reports:
  columns and rows.
\<close>

definition UpdateDimensions :: "int \<times> int \<Rightarrow> term_globals \<Rightarrow> term_globals" where
  "UpdateDimensions winsize t =
     (let t = t\<lparr>ws_col := fst winsize, ws_row := snd winsize\<rparr>;
          t = t\<lparr>DisplayInfo_Width := ws_col t, DisplayInfo_Height := ws_row t * 2,
                DisplayInfo_Depth := 4, DisplayInfo_ScaleX := 1 / 2, DisplayInfo_ScaleY := 1 / 2\<rparr>
      in t\<lparr>Window_Main_Width := DisplayInfo_Width t, Window_Main_Height := DisplayInfo_Height t\<rparr>)"

definition HookTerminal :: "term_globals \<Rightarrow> term_globals" where
  "HookTerminal t =
     (let t = t\<lparr>tio := tty t\<rparr>;
          raw = tio t;
          raw = raw\<lparr>c_lflag := c_lflag raw - {ECHO, ICANON}\<rparr>;
          t = t\<lparr>tty := raw\<rparr>;
          t = printf (DEC_PM_SET ''1049'') t;
          t = printf (CSI @ ''0m'') t;
          t = printf (ERASE_CMD ''2'') t;
          t = printf (DEC_PM_SET ''1003'') t;
          t = printf (DEC_PM_SET ''1015'') t;
          t = printf (DEC_PM_SET ''1006'') t
      in printf (DEC_PM_RESET ''25'') t)"

definition UnhookTerminal :: "term_globals \<Rightarrow> term_globals" where
  "UnhookTerminal t =
     (let t = t\<lparr>tty := tio t\<rparr>;
          t = printf (DEC_PM_RESET ''1049'') t;
          t = printf (CSI @ ''0m'') t;
          t = printf (ERASE_CMD ''2'') t;
          t = printf (DEC_PM_RESET ''1003'') t;
          t = printf (DEC_PM_RESET ''1015'') t;
          t = printf (DEC_PM_RESET ''1006'') t
      in printf (DEC_PM_SET ''25'') t)"

text \<open>
  The sequences of the spec, in its words. On entry: enable the alternate screen, reset
  SGR, erase all, enable the mouse-tracking modes 1003, 1015 and 1006, hide the cursor.
  On exit: disable the alternate screen, reset SGR, erase all, disable the three mouse
  modes, show the cursor. A DEC private mode is set by the final byte \<open>h\<close> and reset by
  the final byte \<open>l\<close> (the letter).
\<close>

definition spec_entry_sequence :: string where
  "spec_entry_sequence =
     CHR 0x1B # ''[?1049h'' @ CHR 0x1B # ''[0m'' @ CHR 0x1B # ''[2J'' @ CHR 0x1B # ''[?1003h''
       @ CHR 0x1B # ''[?1015h'' @ CHR 0x1B # ''[?1006h'' @ CHR 0x1B # ''[?25l''"

definition spec_exit_sequence :: string where
  "spec_exit_sequence =
     CHR 0x1B # ''[?1049l'' @ CHR 0x1B # ''[0m'' @ CHR 0x1B # ''[2J'' @ CHR 0x1B # ''[?1003l''
       @ CHR 0x1B # ''[?1015l'' @ CHR 0x1B # ''[?1006l'' @ CHR 0x1B # ''[?25h''"

text \<open>A terminal state to start from: nothing written yet, the device in cooked mode.\<close>

definition term_0 :: term_globals where
  "term_0 = \<lparr>tio = \<lparr>c_lflag = {}\<rparr>, ws_col = 0, ws_row = 0, pendingResize = False,
     pendingClose = False, tty = \<lparr>c_lflag = {ECHO, ICANON}\<rparr>, stdout = [],
     DisplayInfo_Width = 0, DisplayInfo_Height = 0, DisplayInfo_Depth = 0,
     DisplayInfo_ScaleX = 0, DisplayInfo_ScaleY = 0, Window_Main_Width = 0,
     Window_Main_Height = 0, Window_Main_Exists = False, term_calls = []\<rparr>"

section \<open>The terminal backend: input decoding (lines 779--858)\<close>

subsection \<open>C strings in memory\<close>

text \<open>
  A \<^verbatim>\<open>char\<close> array is the list of its bytes, a pointer into it an offset, \<^verbatim>\<open>NULL\<close> is
  \<open>None\<close>. The library functions scan until they meet a NUL byte; a scan that reaches
  the end of the array without meeting one would read past the array in C, and has the
  result \<open>None\<close> here.
\<close>

definition NUL :: char where
  "NUL = CHR 0x00"

text \<open>\<^verbatim>\<open>strchr(s, c) != NULL\<close>: whether \<open>c\<close> occurs in the string at \<open>s\<close>.\<close>

fun strchr_found :: "string \<Rightarrow> char \<Rightarrow> bool option" where
  "strchr_found [] c = None"
| "strchr_found (x # xs) c =
     (if x = c then Some True else if x = NUL then Some False else strchr_found xs c)"

text \<open>
  \<^verbatim>\<open>strncpy(dst, src, n)\<close> writes exactly \<open>n\<close> bytes: the bytes of the string at \<open>src\<close>, then
  NUL bytes if the string is shorter than \<open>n\<close>. When the first \<open>n\<close> bytes of \<open>src\<close> hold no
  NUL, no NUL is written.
\<close>

fun strncpy_bytes :: "string \<Rightarrow> nat \<Rightarrow> string option" where
  "strncpy_bytes src 0 = Some []"
| "strncpy_bytes [] (Suc n) = None"
| "strncpy_bytes (x # xs) (Suc n) =
     (if x = NUL then Some (replicate (Suc n) NUL)
      else map_option ((#) x) (strncpy_bytes xs n))"

definition strncpy :: "string \<Rightarrow> string \<Rightarrow> nat \<Rightarrow> string option" where
  "strncpy dst src n =
     (if length dst < n then None
      else map_option (\<lambda>w. w @ drop n dst) (strncpy_bytes src n))"

text \<open>
  \<^verbatim>\<open>strspn\<close> and \<^verbatim>\<open>strcspn\<close>: the number of leading bytes that are (are not) among the
  delimiters; both stop at a NUL byte.
\<close>

fun strspn :: "string \<Rightarrow> string \<Rightarrow> nat option" where
  "strspn [] delim = None"
| "strspn (x # xs) delim =
     (if x \<noteq> NUL \<and> x \<in> set delim then map_option Suc (strspn xs delim) else Some 0)"

fun strcspn :: "string \<Rightarrow> string \<Rightarrow> nat option" where
  "strcspn [] delim = None"
| "strcspn (x # xs) delim =
     (if x = NUL \<or> x \<in> set delim then Some 0 else map_option Suc (strcspn xs delim))"

text \<open>
  \<^verbatim>\<open>strtok(s, delim)\<close> on the array \<open>mem\<close>, with the pointer \<open>saved\<close> that \<^verbatim>\<open>strtok\<close> keeps
  between calls. The result is the token (or \<^verbatim>\<open>NULL\<close>), the array (the delimiter that
  ends the token is overwritten with NUL) and the new saved pointer.
\<close>

definition strtok ::
    "string \<Rightarrow> nat option \<Rightarrow> string \<Rightarrow> nat option \<Rightarrow> (nat option \<times> string \<times> nat option) option" where
  "strtok mem s delim saved =
     (case (case s of Some p \<Rightarrow> Some p | None \<Rightarrow> saved) of
        None \<Rightarrow> Some (None, mem, None)
      | Some p \<Rightarrow>
          (case strspn (drop p mem) delim of
             None \<Rightarrow> None
           | Some k \<Rightarrow>
               (let b = p + k in
                if mem ! b = NUL then Some (None, mem, Some b)
                else (case strcspn (drop b mem) delim of
                        None \<Rightarrow> None
                      | Some l \<Rightarrow>
                          (let e = b + l in
                           if mem ! e = NUL then Some (Some b, mem, Some e)
                           else Some (Some b, mem[e := NUL], Some (e + 1)))))))"

text \<open>
  \<^verbatim>\<open>atoi\<close>: white space, an optional sign, then decimal digits up to the first byte that
  is not a digit. \<^verbatim>\<open>atoi(NULL)\<close> dereferences a null pointer: \<open>None\<close>. (A value outside
  the range of \<^verbatim>\<open>int\<close> is not modelled.)
\<close>

definition isspace :: "char \<Rightarrow> bool" where
  "isspace c = (c = CHR '' '' \<or> (9 \<le> (of_char c :: nat) \<and> (of_char c :: nat) \<le> 13))"

definition isdigit :: "char \<Rightarrow> bool" where
  "isdigit c = (48 \<le> (of_char c :: nat) \<and> (of_char c :: nat) \<le> 57)"

fun atoi_digits :: "string \<Rightarrow> int \<Rightarrow> int option" where
  "atoi_digits [] acc = None"
| "atoi_digits (x # xs) acc =
     (if isdigit x then atoi_digits xs (acc * 10 + (of_char x - 48)) else Some acc)"

fun atoi_string :: "string \<Rightarrow> int option" where
  "atoi_string [] = None"
| "atoi_string (x # xs) =
     (if isspace x then atoi_string xs
      else if x = CHR ''-'' then map_option uminus (atoi_digits xs 0)
      else if x = CHR ''+'' then atoi_digits xs 0
      else atoi_digits (x # xs) 0)"

definition atoi :: "string \<Rightarrow> nat option \<Rightarrow> int option" where
  "atoi mem tok = (case tok of None \<Rightarrow> None | Some p \<Rightarrow> atoi_string (drop p mem))"

text \<open>The bytes of the string at the start of the array, for \<^verbatim>\<open>strcmp\<close>.\<close>

fun cstring :: "string \<Rightarrow> string option" where
  "cstring [] = None"
| "cstring (x # xs) = (if x = NUL then Some [] else map_option ((#) x) (cstring xs))"

subsection \<open>Mouse reports and keys\<close>

text \<open>
  The macro \<^verbatim>\<open>ExtractXY()\<close>: two more tokens of the copy, the second one doubled.
\<close>

definition ExtractXY :: "string \<Rightarrow> nat option \<Rightarrow> (int \<times> int \<times> string \<times> nat option) option" where
  "ExtractXY cpy saved =
     do {
       (tok, cpy, saved) \<leftarrow> strtok cpy None '';'' saved;
       x \<leftarrow> atoi cpy tok;
       (tok, cpy, saved) \<leftarrow> strtok cpy None '';'' saved;
       y \<leftarrow> atoi cpy tok;
       Some (x, y * 2, cpy, saved)
     }"

text \<open>
  \<^verbatim>\<open>ProcessMouse(buf, n)\<close>. \<open>buf\<close> is the caller's array of 256 bytes as \<^verbatim>\<open>read\<close> left it:
  its first \<open>n\<close> bytes are the input, the others hold what was there before (the array
  is not initialised and no NUL is written behind the input). \<open>cpy0\<close> is the local array
  \<^verbatim>\<open>char cpy[256+2]\<close> before \<^verbatim>\<open>strncpy\<close>, also not initialised. In the case \<^verbatim>\<open>'3'\<close> the
  variable \<^verbatim>\<open>mouse\<close> is assigned and not used.
\<close>

definition ProcessMouse ::
    "input_codes \<Rightarrow> string \<Rightarrow> nat \<Rightarrow> string \<Rightarrow> term_globals \<Rightarrow> term_globals option" where
  "ProcessMouse K buf n cpy0 t =
     (if length cpy0 \<noteq> 258 then None
      else do {
        cpy \<leftarrow> strncpy cpy0 buf n;
        (tok, cpy, saved) \<leftarrow> strtok cpy (Some 3) '';'' None;
        (case tok of
           None \<Rightarrow> Some t
         | Some p \<Rightarrow>
             if cpy ! p = CHR ''0'' then
               do {
                 found \<leftarrow> strchr_found buf (CHR ''m'');
                 let mouse = \<not> found;
                 (x, y, cpy, saved) \<leftarrow> ExtractXY cpy saved;
                 Some (term_call (Input_SetNonRepeatable (K ''CCMOUSE_L'') mouse)
                        (term_call (Pointer_SetPosition 0 x y) t))
               }
             else if cpy ! p = CHR ''3'' then
               do {
                 tokstr \<leftarrow> cstring (drop p cpy);
                 let mouse = (tokstr = ''32'');
                 (x, y, cpy, saved) \<leftarrow> ExtractXY cpy saved;
                 Some (term_call (Pointer_SetPosition 0 x y) t)
               }
             else Some t)
      })"

text \<open>\<^verbatim>\<open>ProcessKey(key)\<close>; the character constants are their byte values.\<close>

definition ProcessKey :: "input_codes \<Rightarrow> int \<Rightarrow> term_globals \<Rightarrow> term_globals" where
  "ProcessKey K key t =
     (let key = (if key \<ge> of_char (CHR ''a'') \<and> key \<le> of_char (CHR ''z'') then key - 32 else key)
      in if key \<ge> of_char (CHR ''A'') \<and> key \<le> of_char (CHR ''Z'')
         then term_call (Input_SetPressed key) t
         else if key = of_char (CHR '' '')
         then term_call (Input_SetReleased (K ''CCKEY_SPACE''))
                (term_call (Input_SetPressed (K ''CCKEY_SPACE'')) t)
         else t)"

text \<open>
  What one call of \<^verbatim>\<open>Window_ProcessEvents\<close> gets from the outside: the window size the
  \<^verbatim>\<open>ioctl\<close> reports, the answer of \<^verbatim>\<open>stdin_available()\<close>, the array \<^verbatim>\<open>buf\<close> after \<^verbatim>\<open>read\<close> and
  the number \<^verbatim>\<open>read\<close> returned, and the array \<^verbatim>\<open>cpy\<close> of \<^verbatim>\<open>ProcessMouse\<close> before it is written.
\<close>

record term_env =
  env_winsize :: "int \<times> int"
  stdin_ready :: bool
  read_buf :: string
  read_n :: int
  cpy_before :: string

text \<open>
  \<^verbatim>\<open>Window_ProcessEvents(delta)\<close> of the terminal backend. \<^verbatim>\<open>buf\<close> has 256 bytes; a \<^verbatim>\<open>char\<close>
  of value 128 or more fails the test \<^verbatim>\<open>buf[0] >= 32 && buf[0] < 127\<close> whether \<^verbatim>\<open>char\<close> is
  signed or not.
\<close>

definition Window_ProcessEvents_Terminal ::
    "input_codes \<Rightarrow> term_env \<Rightarrow> term_globals \<Rightarrow> term_globals option" where
  "Window_ProcessEvents_Terminal K env t =
     (let t = (if pendingResize t
               then term_call Event_RaiseVoid_Resized
                      (UpdateDimensions (env_winsize env) (t\<lparr>pendingResize := False\<rparr>))
               else t)
      in if pendingClose t
         then Some (term_call Event_RaiseVoid_Closing
                      (t\<lparr>pendingClose := False, Window_Main_Exists := False\<rparr>))
         else if \<not> stdin_ready env then Some t
         else (let buf = read_buf env; n = read_n env in
               if length buf \<noteq> 256 then None
               else if n \<ge> 4 \<and> buf ! 0 = CHR 0x1B \<and> buf ! 1 = CHR ''['' \<and> buf ! 2 = CHR ''<''
               then ProcessMouse K buf (nat n) (cpy_before env) t
               else if (of_char (buf ! 0) :: int) \<ge> 32 \<and> (of_char (buf ! 0) :: int) < 127
               then Some (ProcessKey K (of_char (buf ! 0)) t)
               else Some t))"

section \<open>The terminal backend: half-block output (lines 895--908)\<close>

record Rect2D =
  Rect2D_x :: int
  Rect2D_y :: int
  Rect2D_width :: int
  Rect2D_height :: int

text \<open>
  What one iteration of the inner loop prints, as the arguments of its three \<^verbatim>\<open>printf\<close>
  calls: the colour of the background escape, the colour of the foreground escape, and
  the row and column of the cursor-position escape in front of the half-block glyph.
\<close>

record 'c cell =
  bg :: 'c
  fg :: 'c
  cell_row :: int
  cell_col :: int

text \<open>Integer division of C (\<^verbatim>\<open>y / 2\<close>): the quotient is truncated towards zero.\<close>

definition c_div :: "int \<Rightarrow> int \<Rightarrow> int" where
  "c_div a b = (if (a < 0) = (b < 0) then \<bar>a\<bar> div \<bar>b\<bar> else - (\<bar>a\<bar> div \<bar>b\<bar>))"

text \<open>
  Bitmap.h is not among the sources. The macro \<^verbatim>\<open>Bitmap_GetPixel\<close> is the parameter
  \<open>GetPixel\<close>: the pixel of the bitmap at a column and a row, \<open>None\<close> where the access is
  outside the pixel buffer. The type of pixels is a parameter as well.

  The inner loop: \<^verbatim>\<open>for (int x = r.x; x < r.x + r.width; x++)\<close>; \<open>topc\<close> and \<open>botc\<close> are
  the variables \<^verbatim>\<open>top\<close> and \<^verbatim>\<open>bot\<close>.
\<close>

function DrawFramebuffer_x ::
    "('b \<Rightarrow> int \<Rightarrow> int \<Rightarrow> 'c option) \<Rightarrow> 'b \<Rightarrow> Rect2D \<Rightarrow> int \<Rightarrow> int \<Rightarrow> 'c cell list option" where
  "DrawFramebuffer_x GetPixel bmp r y x =
     (if x < Rect2D_x r + Rect2D_width r
      then (case GetPixel bmp x (y + 0) of
              None \<Rightarrow> None
            | Some topc \<Rightarrow>
                (case GetPixel bmp x (y + 1) of
                   None \<Rightarrow> None
                 | Some botc \<Rightarrow>
                     (case DrawFramebuffer_x GetPixel bmp r y (x + 1) of
                        None \<Rightarrow> None
                      | Some cells \<Rightarrow>
                          Some (\<lparr>bg = topc, fg = botc, cell_row = c_div y 2, cell_col = x\<rparr> # cells))))
      else Some [])"
  by pat_completeness auto
termination
  by (relation "measure (\<lambda>(GetPixel, bmp, r, y, x). nat (Rect2D_x r + Rect2D_width r - x))") auto

declare DrawFramebuffer_x.simps [simp del]

text \<open>The outer loop: \<^verbatim>\<open>for (int y = r.y & ~0x01; y < r.y + r.height; y += 2)\<close>.\<close>

function DrawFramebuffer_y ::
    "('b \<Rightarrow> int \<Rightarrow> int \<Rightarrow> 'c option) \<Rightarrow> 'b \<Rightarrow> Rect2D \<Rightarrow> int \<Rightarrow> 'c cell list option" where
  "DrawFramebuffer_y GetPixel bmp r y =
     (if y < Rect2D_y r + Rect2D_height r
      then (case DrawFramebuffer_x GetPixel bmp r y (Rect2D_x r) of
              None \<Rightarrow> None
            | Some cells \<Rightarrow>
                (case DrawFramebuffer_y GetPixel bmp r (y + 2) of
                   None \<Rightarrow> None
                 | Some cells' \<Rightarrow> Some (cells @ cells')))
      else Some [])"
  by pat_completeness auto
termination
  by (relation "measure (\<lambda>(GetPixel, bmp, r, y). nat (Rect2D_y r + Rect2D_height r - y))") auto

declare DrawFramebuffer_y.simps [simp del]

definition Window_DrawFramebuffer_Terminal ::
    "('b \<Rightarrow> int \<Rightarrow> int \<Rightarrow> 'c option) \<Rightarrow> Rect2D \<Rightarrow> 'b \<Rightarrow> 'c cell list option" where
  "Window_DrawFramebuffer_Terminal GetPixel r bmp =
     DrawFramebuffer_y GetPixel bmp r (Rect2D_y r AND NOT 1)"

text \<open>
  The bytes of the three \<^verbatim>\<open>printf\<close> calls of a cell. \<^verbatim>\<open>%i\<close> prints a decimal number; the
  macros \<^verbatim>\<open>BitmapCol_R\<close>, \<^verbatim>\<open>BitmapCol_G\<close> and \<^verbatim>\<open>BitmapCol_B\<close> (Bitmap.h) are the parameters
  \<open>R\<close>, \<open>G\<close> and \<open>B\<close>.
\<close>

fun decimal :: "nat \<Rightarrow> string" where
  "decimal n = (if n < 10 then [char_of (48 + n)] else decimal (n div 10) @ [char_of (48 + n mod 10)])"

declare decimal.simps [simp del]

definition printf_i :: "int \<Rightarrow> string" where
  "printf_i i = (if i < 0 then ''-'' @ decimal (nat (- i)) else decimal (nat i))"

definition cell_printf :: "('c \<Rightarrow> int) \<Rightarrow> ('c \<Rightarrow> int) \<Rightarrow> ('c \<Rightarrow> int) \<Rightarrow> 'c cell \<Rightarrow> string" where
  "cell_printf R G B c =
     CSI @ ''48;2;'' @ printf_i (R (bg c)) @ '';'' @ printf_i (G (bg c)) @ '';'' @ printf_i (B (bg c)) @ ''m''
     @ CSI @ ''38;2;'' @ printf_i (R (fg c)) @ '';'' @ printf_i (G (fg c)) @ '';'' @ printf_i (B (fg c)) @ ''m''
     @ CSI @ printf_i (cell_row c) @ '';'' @ printf_i (cell_col c) @ ''H'' @ [CHR 0xE2, CHR 0x96, CHR 0x84]"

text \<open>
  The encoding in the words of the spec: the pixel rows are taken two at a time from the
  start row rounded down to an even boundary; for each such row pair and each column of
  the rectangle there is one cell whose background is the top pixel and whose foreground
  is the bottom pixel, at terminal row = pixel row / 2 and column = pixel column.
\<close>

definition row_pairs :: "Rect2D \<Rightarrow> int list" where
  "row_pairs r =
     filter even [Rect2D_y r - Rect2D_y r mod 2 .. Rect2D_y r + Rect2D_height r - 1]"

definition columns :: "Rect2D \<Rightarrow> int list" where
  "columns r = [Rect2D_x r .. Rect2D_x r + Rect2D_width r - 1]"

definition half_block_cell ::
    "('b \<Rightarrow> int \<Rightarrow> int \<Rightarrow> 'c option) \<Rightarrow> 'b \<Rightarrow> int \<Rightarrow> int \<Rightarrow> 'c cell option" where
  "half_block_cell GetPixel bmp y x =
     (case GetPixel bmp x y of
        None \<Rightarrow> None
      | Some topc \<Rightarrow>
          (case GetPixel bmp x (y + 1) of
             None \<Rightarrow> None
           | Some botc \<Rightarrow> Some \<lparr>bg = topc, fg = botc, cell_row = y div 2, cell_col = x\<rparr>))"

definition half_block_cells ::
    "('b \<Rightarrow> int \<Rightarrow> int \<Rightarrow> 'c option) \<Rightarrow> Rect2D \<Rightarrow> 'b \<Rightarrow> 'c cell list option" where
  "half_block_cells GetPixel r bmp =
     those (concat (map (\<lambda>y. map (half_block_cell GetPixel bmp y) (columns r)) (row_pairs r)))"

text \<open>
  Test data: a bitmap as the list of its rows (a pixel is a number), with the access
  that fails outside it.
\<close>

definition rows_GetPixel :: "nat list list \<Rightarrow> int \<Rightarrow> int \<Rightarrow> nat option" where
  "rows_GetPixel bmp x y =
     (if 0 \<le> y \<and> y < int (length bmp) \<and> 0 \<le> x \<and> x < int (length (bmp ! nat y))
      then Some (bmp ! nat y ! nat x) else None)"

section \<open>Test data and the key rule of the terminal backend\<close>

text \<open>
  The calls for a printable byte, as the code makes them: a letter is pressed as its
  upper-case letter, the space is pressed and released, any other byte does nothing.
\<close>

definition key_calls :: "input_codes \<Rightarrow> int \<Rightarrow> call list" where
  "key_calls K b =
     (if 97 \<le> b \<and> b \<le> 122 then [Input_SetPressed (b - 32)]
      else if 65 \<le> b \<and> b \<le> 90 then [Input_SetPressed b]
      else if b = 32 then [Input_SetPressed (K ''CCKEY_SPACE''), Input_SetReleased (K ''CCKEY_SPACE'')]
      else [])"

text \<open>What a call of \<^verbatim>\<open>Window_ProcessEvents\<close> gets when one byte was typed.\<close>

definition key_env :: "char \<Rightarrow> term_env" where
  "key_env c = \<lparr>env_winsize = (80, 24), stdin_ready = True, read_buf = c # replicate 255 NUL,
     read_n = 1, cpy_before = replicate 258 NUL\<rparr>"

text \<open>
  What a call of \<^verbatim>\<open>Window_ProcessEvents\<close> gets when one \<^verbatim>\<open>read\<close> returned the two bytes
  \<open>c\<close> and \<open>d\<close>.
\<close>

definition two_key_env :: "char \<Rightarrow> char \<Rightarrow> term_env" where
  "two_key_env c d = \<lparr>env_winsize = (80, 24), stdin_ready = True,
     read_buf = c # d # replicate 254 NUL, read_n = 2, cpy_before = replicate 258 NUL\<rparr>"

text \<open>
  What a call of \<^verbatim>\<open>Window_ProcessEvents\<close> gets when \<^verbatim>\<open>read\<close> returned \<open>n\<close> and left \<open>buf\<close> in
  the array, with \<open>cpy0\<close> in the array \<^verbatim>\<open>cpy\<close>.
\<close>

definition mouse_env :: "string \<Rightarrow> int \<Rightarrow> string \<Rightarrow> term_env" where
  "mouse_env buf n cpy0 = \<lparr>env_winsize = (80, 24), stdin_ready = True, read_buf = buf,
     read_n = n, cpy_before = cpy0\<rparr>"

section \<open>Properties of the event queue\<close>

lemma Events_Pull_loop_other [simp]:
  "events_capacity (Events_Pull_loop i g) = events_capacity g"
  "length (events_list (Events_Pull_loop i g)) = length (events_list g)"
  "last_buttons (Events_Pull_loop i g) = last_buttons g"
  "calls (Events_Pull_loop i g) = calls g"
  "WindowInfo_Width (Events_Pull_loop i g) = WindowInfo_Width g"
  "WindowInfo_Height (Events_Pull_loop i g) = WindowInfo_Height g"
  "WindowInfo_Focused (Events_Pull_loop i g) = WindowInfo_Focused g"
  "WindowInfo_Exists (Events_Pull_loop i g) = WindowInfo_Exists g"
  by (induction i g rule: Events_Pull_loop.induct; subst Events_Pull_loop.simps; simp)+

lemma Events_Pull_loop_nth:
  "1 \<le> i \<Longrightarrow> j < length (events_list g) \<Longrightarrow>
   events_list (Events_Pull_loop i g) ! j =
     (if i - 1 \<le> j \<and> j + 1 < events_count g then events_list g ! (j + 1) else events_list g ! j)"
proof (induction i g rule: Events_Pull_loop.induct)
  case (1 i g)
  show ?case
  proof (cases "i < events_count g")
    case True
    with "1" show ?thesis
      by (subst Events_Pull_loop.simps) (auto simp: nth_list_update)
  next
    case False
    with "1.prems" show ?thesis
      by (subst Events_Pull_loop.simps) auto
  qed
qed

lemma queue_Events_Pull_loop:
  assumes "events_count g \<le> length (events_list g)"
  shows "take (events_count g - 1) (events_list (Events_Pull_loop 1 g)) = tl (queue g)"
proof (rule nth_equalityI)
  show "length (take (events_count g - 1) (events_list (Events_Pull_loop 1 g))) = length (tl (queue g))"
    using assms by (simp add: queue_def)
next
  fix j
  assume "j < length (take (events_count g - 1) (events_list (Events_Pull_loop 1 g)))"
  then have j: "j + 1 < events_count g" "j < length (events_list g)"
    using assms by auto
  then show "take (events_count g - 1) (events_list (Events_Pull_loop 1 g)) ! j = tl (queue g) ! j"
    using assms by (simp add: queue_def Events_Pull_loop_nth nth_tl)
qed

lemma queue_empty_iff: "queue_inv g \<Longrightarrow> (queue g = []) = (events_count g = 0)"
  by (auto simp: queue_def queue_inv_def)

lemma length_queue: "queue_inv g \<Longrightarrow> length (queue g) = events_count g"
  by (simp add: queue_def queue_inv_def)

lemma Events_Pull_empty:
  "events_count g = 0 \<Longrightarrow> Events_Pull g = (None, g)"
  by (simp add: Events_Pull_def)

lemma Events_Pull_nonempty:
  assumes "queue_inv g" "queue g = x # q"
  shows "fst (Events_Pull g) = Some x" "queue (snd (Events_Pull g)) = q" "queue_inv (snd (Events_Pull g))"
proof -
  from assms have "events_count g = Suc (length q)"
    using length_queue[of g] by simp
  with assms have n: "events_count g \<noteq> 0" "events_count g \<le> length (events_list g)"
    by (auto simp: queue_inv_def)
  from n have "queue g ! 0 = events_list g ! 0"
    by (simp add: queue_def)
  with assms(2) have "events_list g ! 0 = x" by simp
  then show "fst (Events_Pull g) = Some x" using n by (simp add: Events_Pull_def Let_def)
  have "queue (snd (Events_Pull g)) = tl (queue g)"
    using n queue_Events_Pull_loop[of g] by (simp add: Events_Pull_def Let_def queue_def)
  then show "queue (snd (Events_Pull g)) = q" using assms by simp
  show "queue_inv (snd (Events_Pull g))"
    using assms(1) n by (auto simp: Events_Pull_def Let_def queue_inv_def)
qed

lemma Events_Push_queue:
  assumes "queue_inv g"
  shows "queue (Events_Push e g) = queue g @ [e]" "queue_inv (Events_Push e g)"
  using assms
  by (auto simp: Events_Push_def Utils_Resize_def queue_def queue_inv_def Let_def take_Suc_conv_app_nth
      EVENTS_DEFAULT_MAX_def)

lemma Events_Init_queue: "queue (Events_Init globals_0) = []" "queue_inv (Events_Init globals_0)"
  by (simp_all add: Events_Init_def globals_0_def queue_def queue_inv_def)

lemma run_ops_refines:
  "queue_inv g \<Longrightarrow>
   fst (run_ops ops g) = fst (fifo_ops ops (queue g)) \<and>
   queue (snd (run_ops ops g)) = snd (fifo_ops ops (queue g)) \<and>
   queue_inv (snd (run_ops ops g))"
proof (induction ops arbitrary: g)
  case Nil
  then show ?case by simp
next
  case (Cons op ops)
  show ?case
  proof (cases op)
    case (Push e)
    with Cons show ?thesis by (simp add: Events_Push_queue)
  next
    case Pull
    show ?thesis
    proof (cases "queue g")
      case Nil
      with Cons.prems have "Events_Pull g = (None, g)"
        by (simp add: Events_Pull_empty queue_empty_iff)
      with Cons Pull Nil show ?thesis by (simp add: split_beta)
    next
      case (Cons x q)
      note Events_Pull_nonempty [OF \<open>queue_inv g\<close> Cons]
      with Cons.IH [of "snd (Events_Pull g)"] Pull Cons show ?thesis
        by (simp add: split_beta)
    qed
  qed
qed

lemma fifo_ops_pulled:
  "pulled (fst (fifo_ops ops q)) @ snd (fifo_ops ops q) = q @ pushed ops"
proof (induction ops q rule: fifo_ops.induct)
qed (auto simp: split_beta)

lemma fifo_ops_prefix:
  "pulled (fst (fifo_ops ops [])) = take (length (pulled (fst (fifo_ops ops [])))) (pushed ops)"
  using fifo_ops_pulled[of ops "[]"] by (metis append_Nil append_eq_conv_conj)


lemma fold_Events_Push_queue:
  "queue_inv g \<Longrightarrow>
   queue (fold Events_Push es g) = queue g @ es \<and> queue_inv (fold Events_Push es g)"
  by (induction es arbitrary: g) (simp_all add: Events_Push_queue)

lemma Events_PullAll_queue:
  "queue_inv g \<Longrightarrow> queue g = es \<Longrightarrow>
   fst (Events_PullAll g) = es \<and> events_count (snd (Events_PullAll g)) = 0"
proof (induction es arbitrary: g)
  case Nil
  then have "Events_Pull g = (None, g)"
    by (simp add: Events_Pull_empty queue_empty_iff)
  with Nil show ?case
    by (subst (1 2) Events_PullAll.simps) (simp add: queue_empty_iff)
next
  case (Cons x q)
  note p = Events_Pull_nonempty [OF Cons.prems]
  obtain g' where g': "Events_Pull g = (Some x, g')"
    using p(1) by (cases "Events_Pull g") auto
  with p have "queue_inv g'" "queue g' = q" by simp_all
  from Cons.IH [OF this] g' show ?case
    by (subst (1 2) Events_PullAll.simps) (simp add: split_beta)
qed

lemma Events_Push_capacity:
  "queue_inv g \<Longrightarrow> 20 dvd events_capacity g \<Longrightarrow>
   events_capacity g = 20 \<or> events_capacity g < events_count g + 20 \<Longrightarrow>
   20 dvd events_capacity (Events_Push e g) \<and>
   (events_capacity (Events_Push e g) = 20 \<or>
    events_capacity (Events_Push e g) < events_count (Events_Push e g) + 20)"
  unfolding queue_inv_def Events_Push_def Utils_Resize_def Let_def EVENTS_DEFAULT_MAX_def
  by (cases "events_capacity g \<le> events_count g") auto

lemma fold_Events_Push_capacity:
  "queue_inv g \<Longrightarrow> 20 dvd events_capacity g \<Longrightarrow>
   events_capacity g = 20 \<or> events_capacity g < events_count g + 20 \<Longrightarrow>
   20 dvd events_capacity (fold Events_Push es g) \<and>
   (events_capacity (fold Events_Push es g) = 20 \<or>
    events_capacity (fold Events_Push es g) < events_count (fold Events_Push es g) + 20)"
proof (induction es arbitrary: g)
  case Nil
  then show ?case by simp
next
  case (Cons e es)
  from Cons.prems have "queue_inv (Events_Push e g)" by (simp add: Events_Push_queue)
  moreover note Events_Push_capacity [OF Cons.prems, of e]
  ultimately show ?case using Cons.IH [of "Events_Push e g"] by simp
qed

text \<open>
  C1. For every sequence of pushes of one producer interleaved with pulls, starting from
  the initialised queue: the results of the pulls are those of the FIFO queue of the spec
  (each successful pull returns the oldest record not yet pulled, a pull returns false
  exactly when nothing is queued); the records pulled, followed by those still queued,
  are the records pushed, in push order; and in the state reached \<^verbatim>\<open>Events_Pull\<close> returns
  false exactly when the queue is empty.
\<close>

theorem C1_fifo:
  "fst (run_ops ops (Events_Init globals_0)) = fst (fifo_ops ops [])
   \<and> pulled (fst (run_ops ops (Events_Init globals_0)))
         @ queue (snd (run_ops ops (Events_Init globals_0))) = pushed ops
   \<and> (fst (Events_Pull (snd (run_ops ops (Events_Init globals_0)))) = None)
       = (queue (snd (run_ops ops (Events_Init globals_0))) = [])"
proof -
  let ?g = "Events_Init globals_0"
  note r = run_ops_refines [OF Events_Init_queue(2), of ops, unfolded Events_Init_queue(1)]
  have 1: "fst (run_ops ops ?g) = fst (fifo_ops ops [])" using r by simp
  have 2: "pulled (fst (run_ops ops ?g)) @ queue (snd (run_ops ops ?g)) = pushed ops"
    using r fifo_ops_pulled [of ops "[]"] by simp
  have 3: "(fst (Events_Pull (snd (run_ops ops ?g))) = None) = (queue (snd (run_ops ops ?g)) = [])"
  proof -
    have "queue_inv (snd (run_ops ops ?g))" using r by simp
    then show ?thesis
      by (auto simp: queue_empty_iff Events_Pull_def Let_def)
  qed
  from 1 2 3 show ?thesis by blast
qed


theorem C1_fifo_witness:
  "fst (run_ops [Push \<lparr>type = CC_KEY_DOWN, v1 = I32 38, v2 = I32 0\<rparr>,
                 Push \<lparr>type = CC_KEY_UP, v1 = I32 38, v2 = I32 0\<rparr>,
                 Pull,
                 Push \<lparr>type = CC_WIN_QUIT, v1 = I32 0, v2 = I32 0\<rparr>,
                 Pull, Pull, Pull] (Events_Init globals_0))
   = [Some \<lparr>type = CC_KEY_DOWN, v1 = I32 38, v2 = I32 0\<rparr>,
      Some \<lparr>type = CC_KEY_UP, v1 = I32 38, v2 = I32 0\<rparr>,
      Some \<lparr>type = CC_WIN_QUIT, v1 = I32 0, v2 = I32 0\<rparr>,
      None]"
  using C1_fifo [of "[Push \<lparr>type = CC_KEY_DOWN, v1 = I32 38, v2 = I32 0\<rparr>,
                 Push \<lparr>type = CC_KEY_UP, v1 = I32 38, v2 = I32 0\<rparr>,
                 Pull,
                 Push \<lparr>type = CC_WIN_QUIT, v1 = I32 0, v2 = I32 0\<rparr>,
                 Pull, Pull, Pull]"]
  by simp

text \<open>
  C2. Pushing more than \<open>EVENTS_DEFAULT_MAX\<close> (20) records onto the initialised queue and
  then pulling until \<^verbatim>\<open>Events_Pull\<close> returns false yields exactly the pushed records in
  push order and leaves the queue empty. After every prefix of the pushes the queue holds
  exactly the records pushed so far, so no push (in particular none at capacity)
  overwrites or loses a record. The storage has grown in steps of 20 to the least
  multiple of 20 that holds all records.
\<close>

theorem C2_no_loss_under_growth:
  assumes "EVENTS_DEFAULT_MAX < length es"
  shows "fst (Events_PullAll (fold Events_Push es (Events_Init globals_0))) = es
    \<and> events_count (snd (Events_PullAll (fold Events_Push es (Events_Init globals_0)))) = 0
    \<and> (\<forall>k \<le> length es.
          queue (fold Events_Push (take k es) (Events_Init globals_0)) = take k es)
    \<and> 20 dvd events_capacity (fold Events_Push es (Events_Init globals_0))
    \<and> length es \<le> events_capacity (fold Events_Push es (Events_Init globals_0))
    \<and> events_capacity (fold Events_Push es (Events_Init globals_0)) < length es + 20"
proof -
  let ?g = "Events_Init globals_0"
  have q: "queue (fold Events_Push xs ?g) = xs" "queue_inv (fold Events_Push xs ?g)" for xs
    using fold_Events_Push_queue [OF Events_Init_queue(2), of xs] by (simp_all add: Events_Init_queue(1))
  have n: "events_count (fold Events_Push es ?g) = length es"
    using length_queue [OF q(2), of es] q(1) [of es] by simp
  have c0: "20 dvd events_capacity ?g" "events_capacity ?g = 20 \<or> events_capacity ?g < events_count ?g + 20"
    by (simp_all add: Events_Init_def EVENTS_DEFAULT_MAX_def)
  note c = fold_Events_Push_capacity [OF Events_Init_queue(2) c0, of es]
  have le: "length es \<le> events_capacity (fold Events_Push es ?g)"
    using q(2) [of es] n by (simp add: queue_inv_def)
  have lt: "events_capacity (fold Events_Push es ?g) < length es + 20"
    using c n assms by (auto simp: EVENTS_DEFAULT_MAX_def)
  note d = Events_PullAll_queue [OF q(2) q(1), of es]
  from d q(1) c le lt show ?thesis by simp
qed

theorem C2_no_loss_under_growth_witness:
  "EVENTS_DEFAULT_MAX < length (key_inputs 45)
   \<and> fst (Events_PullAll (fold Events_Push (key_inputs 45) (Events_Init globals_0))) = key_inputs 45
   \<and> events_capacity (fold Events_Push (key_inputs 45) (Events_Init globals_0)) = 60"
proof -
  have h: "EVENTS_DEFAULT_MAX < length (key_inputs 45)"
    by (simp add: key_inputs_def EVENTS_DEFAULT_MAX_def)
  have l: "length (key_inputs 45) = 45" by (simp add: key_inputs_def)
  from C2_no_loss_under_growth [OF h] l
  have "20 dvd events_capacity (fold Events_Push (key_inputs 45) (Events_Init globals_0))"
    "45 \<le> events_capacity (fold Events_Push (key_inputs 45) (Events_Init globals_0))"
    "events_capacity (fold Events_Push (key_inputs 45) (Events_Init globals_0)) < 65"
    by simp_all
  then have "events_capacity (fold Events_Push (key_inputs 45) (Events_Init globals_0)) = 60"
    by presburger
  with h C2_no_loss_under_growth [OF h] show ?thesis by simp
qed

section \<open>Properties of the native event translator\<close>

lemma add_call_queue [simp]:
  "queue (add_call c g) = queue g" "queue_inv (add_call c g) = queue_inv g"
  "events_count (add_call c g) = events_count g" "last_buttons (add_call c g) = last_buttons g"
  "calls (add_call c g) = calls g @ [c]"
  by (simp_all add: add_call_def queue_def queue_inv_def)

lemma Events_Push_last_buttons [simp]:
  "last_buttons (Events_Push e g) = last_buttons g"
  by (simp add: Events_Push_def Let_def split: prod.splits)

lemma Events_Push_calls [simp]:
  "calls (Events_Push e g) = calls g"
  by (simp add: Events_Push_def Let_def split: prod.splits)

lemma mask_test_int:
  "((x::int) AND 1 \<noteq> 0) = bit x 0" "(x AND 2 \<noteq> 0) = bit x 1" "(x AND 4 \<noteq> 0) = bit x 2"
  using and_exp_eq_0_iff_not_bit [of x 0] and_exp_eq_0_iff_not_bit [of x 1]
    and_exp_eq_0_iff_not_bit [of x 2]
  by simp_all

lemma UpdateMouseButton_queue:
  "queue_inv g \<Longrightarrow>
   queue (UpdateMouseButton btn pressed g) =
     queue g @ [\<lparr>type = (if pressed \<noteq> 0 then CC_MOUSE_DOWN else CC_MOUSE_UP), v1 = I32 btn, v2 = Indeterminate\<rparr>]
   \<and> queue_inv (UpdateMouseButton btn pressed g)
   \<and> last_buttons (UpdateMouseButton btn pressed g) = last_buttons g"
  by (simp add: UpdateMouseButton_def Events_Push_queue)

lemma UpdateMouseButtons_queue:
  assumes "queue_inv g"
  shows "queue (UpdateMouseButtons K buttons g) =
           queue g @ button_edge (K ''KEY_LMOUSE'') 0 (last_buttons g) buttons
                   @ button_edge (K ''KEY_RMOUSE'') 1 (last_buttons g) buttons
                   @ button_edge (K ''KEY_MMOUSE'') 2 (last_buttons g) buttons"
    and "queue_inv (UpdateMouseButtons K buttons g)"
    and "last_buttons (UpdateMouseButtons K buttons g) = buttons"
proof -
  let ?c = "buttons XOR last_buttons g"
  define g1 where "g1 = (if ?c AND B_PRIMARY_MOUSE_BUTTON \<noteq> 0
               then UpdateMouseButton (K ''KEY_LMOUSE'') (buttons AND B_PRIMARY_MOUSE_BUTTON) g
               else g)"
  define g2 where "g2 = (if ?c AND B_SECONDARY_MOUSE_BUTTON \<noteq> 0
               then UpdateMouseButton (K ''KEY_RMOUSE'') (buttons AND B_SECONDARY_MOUSE_BUTTON) g1
               else g1)"
  define g3 where "g3 = (if ?c AND B_TERTIARY_MOUSE_BUTTON \<noteq> 0
               then UpdateMouseButton (K ''KEY_MMOUSE'') (buttons AND B_TERTIARY_MOUSE_BUTTON) g2
               else g2)"
  have u: "UpdateMouseButtons K buttons g = g3\<lparr>last_buttons := buttons\<rparr>"
    by (simp add: UpdateMouseButtons_def Let_def g1_def g2_def g3_def)
  have 1: "queue g1 = queue g @ button_edge (K ''KEY_LMOUSE'') 0 (last_buttons g) buttons" "queue_inv g1"
    using assms UpdateMouseButton_queue [OF assms]
    by (auto simp: g1_def button_edge_def B_PRIMARY_MOUSE_BUTTON_def mask_test_int bit_xor_iff)
  have 2: "queue g2 = queue g1 @ button_edge (K ''KEY_RMOUSE'') 1 (last_buttons g) buttons" "queue_inv g2"
    using 1(2) UpdateMouseButton_queue [OF 1(2)]
    by (auto simp: g2_def button_edge_def B_SECONDARY_MOUSE_BUTTON_def mask_test_int bit_xor_iff)
  have 3: "queue g3 = queue g2 @ button_edge (K ''KEY_MMOUSE'') 2 (last_buttons g) buttons" "queue_inv g3"
    using 2(2) UpdateMouseButton_queue [OF 2(2)]
    by (auto simp: g3_def button_edge_def B_TERTIARY_MOUSE_BUTTON_def mask_test_int bit_xor_iff)
  show "queue (UpdateMouseButtons K buttons g) =
           queue g @ button_edge (K ''KEY_LMOUSE'') 0 (last_buttons g) buttons
                   @ button_edge (K ''KEY_RMOUSE'') 1 (last_buttons g) buttons
                   @ button_edge (K ''KEY_MMOUSE'') 2 (last_buttons g) buttons"
    using 1 2 3 by (simp add: u queue_def)
  show "queue_inv (UpdateMouseButtons K buttons g)"
    using 3 by (simp add: u queue_inv_def)
  show "last_buttons (UpdateMouseButtons K buttons g) = buttons"
    by (simp add: u)
qed

lemma fold_UpdateMouseButtons_queue:
  "queue_inv g \<Longrightarrow>
   queue (fold (UpdateMouseButtons K) bs g) = queue g @ button_edges K (last_buttons g) bs
   \<and> queue_inv (fold (UpdateMouseButtons K) bs g)"
proof (induction bs arbitrary: g)
  case Nil
  then show ?case by simp
next
  case (Cons b bs)
  note u = UpdateMouseButtons_queue [OF Cons.prems, of K b]
  from Cons.IH [OF u(2)] u show ?case by simp
qed

lemma button_edge_same [simp]: "button_edge btn n b b = []"
  by (simp add: button_edge_def)

lemma button_edges_append:
  "button_edges K old (bs @ cs) = button_edges K old bs @ button_edges K (last (old # bs)) cs"
  by (induction bs arbitrary: old) simp_all

lemma Events_Init_last_buttons [simp]: "last_buttons (Events_Init globals_0) = 0"
  by (simp add: Events_Init_def globals_0_def)

text \<open>
  C3. Fed to \<^verbatim>\<open>UpdateMouseButtons\<close> from the shadow state 0, the bitmasks
  0, PRIMARY, PRIMARY|SECONDARY, SECONDARY, 0 queue exactly MouseDown(Left),
  MouseDown(Right), MouseUp(Left), MouseUp(Right), in this order. For every sequence of
  bitmasks the records queued are the edges of the spec: one record per changed bit among
  primary (Left), secondary (Right) and tertiary (Middle), none for an unchanged bit; so
  repeating a bitmask queues nothing.
\<close>

theorem C3_button_edges:
  "queue (fold (UpdateMouseButtons K)
       [0, B_PRIMARY_MOUSE_BUTTON, B_PRIMARY_MOUSE_BUTTON OR B_SECONDARY_MOUSE_BUTTON,
        B_SECONDARY_MOUSE_BUTTON, 0] (Events_Init globals_0))
     = [\<lparr>type = CC_MOUSE_DOWN, v1 = I32 (K ''KEY_LMOUSE''), v2 = Indeterminate\<rparr>,
        \<lparr>type = CC_MOUSE_DOWN, v1 = I32 (K ''KEY_RMOUSE''), v2 = Indeterminate\<rparr>,
        \<lparr>type = CC_MOUSE_UP, v1 = I32 (K ''KEY_LMOUSE''), v2 = Indeterminate\<rparr>,
        \<lparr>type = CC_MOUSE_UP, v1 = I32 (K ''KEY_RMOUSE''), v2 = Indeterminate\<rparr>]
   \<and> queue (fold (UpdateMouseButtons K) bs (Events_Init globals_0)) = button_edges K 0 bs
   \<and> queue (fold (UpdateMouseButtons K) (bs @ [b, b]) (Events_Init globals_0))
       = queue (fold (UpdateMouseButtons K) (bs @ [b]) (Events_Init globals_0))"
proof -
  have q: "queue (fold (UpdateMouseButtons K) xs (Events_Init globals_0)) = button_edges K 0 xs" for xs
    using fold_UpdateMouseButtons_queue [OF Events_Init_queue(2), of K xs]
    by (simp add: Events_Init_queue(1))
  have a: "button_edges K 0 [0, B_PRIMARY_MOUSE_BUTTON, B_PRIMARY_MOUSE_BUTTON OR B_SECONDARY_MOUSE_BUTTON,
        B_SECONDARY_MOUSE_BUTTON, 0]
     = [\<lparr>type = CC_MOUSE_DOWN, v1 = I32 (K ''KEY_LMOUSE''), v2 = Indeterminate\<rparr>,
        \<lparr>type = CC_MOUSE_DOWN, v1 = I32 (K ''KEY_RMOUSE''), v2 = Indeterminate\<rparr>,
        \<lparr>type = CC_MOUSE_UP, v1 = I32 (K ''KEY_LMOUSE''), v2 = Indeterminate\<rparr>,
        \<lparr>type = CC_MOUSE_UP, v1 = I32 (K ''KEY_RMOUSE''), v2 = Indeterminate\<rparr>]"
    by (simp add: button_edge_def B_PRIMARY_MOUSE_BUTTON_def B_SECONDARY_MOUSE_BUTTON_def)
  have b: "button_edges K 0 (bs @ [b, b]) = button_edges K 0 (bs @ [b])"
    by (simp add: button_edges_append)
  show ?thesis unfolding q using a b by blast
qed

lemma no_none_pushedI:
  "queue g' = queue g @ new \<Longrightarrow> (\<forall>e\<in>set new. type e \<noteq> CC_NONE) \<Longrightarrow> no_none_pushed g g'"
  by (simp add: no_none_pushed_def only_appends_def appended_def)

lemma ProcessKeyInput_queue:
  assumes "queue_inv g"
  shows "queue (ProcessKeyInput utf8 msg g) =
           queue g @ (case FindString msg ''bytes'' of
                        None \<Rightarrow> []
                      | Some val \<Rightarrow>
                          if snd (utf8 val (length val)) = 0 then []
                          else [\<lparr>type = CC_KEY_INPUT, v1 = I32 (fst (utf8 val (length val))), v2 = Indeterminate\<rparr>])"
    and "queue_inv (ProcessKeyInput utf8 msg g)"
  using assms
  by (auto simp: ProcessKeyInput_def Events_Push_queue split: option.splits prod.splits)

lemma button_edge_types: "e \<in> set (button_edge btn n old new) \<Longrightarrow> type e \<noteq> CC_NONE"
  by (auto simp: button_edge_def split: if_splits)

lemma CC_BWindow_switch_queue:
  assumes "queue_inv g"
  shows "\<exists>new. queue (snd (CC_BWindow_switch K msg g)) = queue g @ new \<and> (\<forall>e\<in>set new. type e \<noteq> CC_NONE)"
    and "queue_inv (snd (CC_BWindow_switch K msg g))"
proof -
  note u = UpdateMouseButtons_queue [OF assms, of K]
  have e: "\<exists>new. queue (UpdateMouseButtons K b g) = queue g @ new \<and> (\<forall>e\<in>set new. type e \<noteq> CC_NONE)" for b
    using u(1) [of b] by (auto dest: button_edge_types)
  show "\<exists>new. queue (snd (CC_BWindow_switch K msg g)) = queue g @ new \<and> (\<forall>e\<in>set new. type e \<noteq> CC_NONE)"
    using e by (cases "what msg") (auto simp: CC_BWindow_switch_def Let_def split: option.splits)
  show "queue_inv (snd (CC_BWindow_switch K msg g))"
    using u(2) assms by (cases "what msg") (auto simp: CC_BWindow_switch_def Let_def split: option.splits)
qed


lemma CC_BWindow_switch_event:
  "type (fst (CC_BWindow_switch K msg g)) \<noteq> CC_NONE \<Longrightarrow>
   queue (snd (CC_BWindow_switch K msg g)) = queue g"
  by (cases "what msg") (auto simp: CC_BWindow_switch_def Let_def CCEvent_zero_def split: option.splits)

lemma CC_BWindow_DispatchMessage_queue:
  assumes "queue_inv g"
  shows "\<exists>new. queue (CC_BWindow_DispatchMessage K utf8 msg g) = queue g @ new
               \<and> (\<forall>e\<in>set new. type e \<noteq> CC_NONE)"
    and "queue_inv (CC_BWindow_DispatchMessage K utf8 msg g)"
proof -
  obtain event g1 where s: "CC_BWindow_switch K msg g = (event, g1)"
    by (cases "CC_BWindow_switch K msg g")
  from CC_BWindow_switch_queue [OF assms, of K msg] s
  obtain new1 where 1: "queue g1 = queue g @ new1" "\<forall>e\<in>set new1. type e \<noteq> CC_NONE" "queue_inv g1"
    by auto
  define g2 where "g2 = (if type event \<noteq> CC_NONE then Events_Push event g1 else g1)"
  have 2: "\<exists>new. queue g2 = queue g @ new \<and> (\<forall>e\<in>set new. type e \<noteq> CC_NONE)" "queue_inv g2"
    using 1 by (auto simp: g2_def Events_Push_queue)
  define g3 where "g3 = (if what msg = B_KEY_DOWN then ProcessKeyInput utf8 msg g2 else g2)"
  have 3: "\<exists>new. queue g3 = queue g @ new \<and> (\<forall>e\<in>set new. type e \<noteq> CC_NONE)" "queue_inv g3"
    using 2 ProcessKeyInput_queue [OF 2(2), of utf8 msg]
    by (auto simp: g3_def split: option.splits)
  have d: "CC_BWindow_DispatchMessage K utf8 msg g = add_call BWindow_DispatchMessage g3"
    by (simp add: CC_BWindow_DispatchMessage_def s g2_def g3_def Let_def)
  show "\<exists>new. queue (CC_BWindow_DispatchMessage K utf8 msg g) = queue g @ new
               \<and> (\<forall>e\<in>set new. type e \<noteq> CC_NONE)"
    using 3 by (simp add: d)
  show "queue_inv (CC_BWindow_DispatchMessage K utf8 msg g)"
    using 3 by (simp add: d)
qed

lemma CC_BApp_DispatchMessage_queue:
  assumes "queue_inv g"
  shows "queue (CC_BApp_DispatchMessage msg g) =
           queue g @ (if what msg = B_QUIT_REQUESTED then [\<lparr>type = CC_WIN_QUIT, v1 = I32 0, v2 = I32 0\<rparr>] else [])"
    and "queue_inv (CC_BApp_DispatchMessage msg g)"
  using assms
  by (cases "what msg"; auto simp: CC_BApp_DispatchMessage_def Let_def CCEvent_zero_def Events_Push_queue
        split: option.splits)+

lemma CC_BWindow_DispatchMessage_unrecognised:
  "what msg = B_OTHER n \<or> what msg = B_REFS_RECEIVED \<or> what msg = B_WINDOW_MOVED \<Longrightarrow>
   queue (CC_BWindow_DispatchMessage K utf8 msg g) = queue g"
  by (auto simp: CC_BWindow_DispatchMessage_def CC_BWindow_switch_def Let_def CCEvent_zero_def)

text \<open>
  C9. From a state that satisfies the queue invariant, each of
  \<^verbatim>\<open>CC_BApp::DispatchMessage\<close>, \<^verbatim>\<open>CC_BWindow::DispatchMessage\<close>, \<^verbatim>\<open>ProcessKeyInput\<close>,
  \<^verbatim>\<open>UpdateMouseButton\<close> and \<^verbatim>\<open>UpdateMouseButtons\<close> only appends to the queue, and no
  record it appends has the type \<^verbatim>\<open>CC_NONE\<close>, for every message. A message the
  application object does not recognise (anything but a quit request), and a message the
  window object does not recognise, queue nothing.
\<close>

theorem C9_no_none_record_pushed:
  assumes "queue_inv g"
  shows "no_none_pushed g (CC_BApp_DispatchMessage msg g)
    \<and> no_none_pushed g (CC_BWindow_DispatchMessage K utf8 msg g)
    \<and> no_none_pushed g (ProcessKeyInput utf8 msg g)
    \<and> no_none_pushed g (UpdateMouseButton btn pressed g)
    \<and> no_none_pushed g (UpdateMouseButtons K buttons g)
    \<and> (what msg \<noteq> B_QUIT_REQUESTED \<longrightarrow> queue (CC_BApp_DispatchMessage msg g) = queue g)
    \<and> (what msg = B_OTHER n \<or> what msg = B_REFS_RECEIVED \<or> what msg = B_WINDOW_MOVED \<longrightarrow>
          queue (CC_BWindow_DispatchMessage K utf8 msg g) = queue g)"
proof -
  have 1: "no_none_pushed g (CC_BApp_DispatchMessage msg g)"
    by (rule no_none_pushedI [OF CC_BApp_DispatchMessage_queue(1) [OF assms]]) simp
  have 2: "no_none_pushed g (CC_BWindow_DispatchMessage K utf8 msg g)"
    using CC_BWindow_DispatchMessage_queue(1) [OF assms, of K utf8 msg]
    by (auto intro: no_none_pushedI)
  have 3: "no_none_pushed g (ProcessKeyInput utf8 msg g)"
    by (rule no_none_pushedI [OF ProcessKeyInput_queue(1) [OF assms]]) (auto split: option.splits)
  have 4: "no_none_pushed g (UpdateMouseButton btn pressed g)"
    using UpdateMouseButton_queue [OF assms, of btn pressed]
    by (auto intro!: no_none_pushedI split: if_splits)
  have 5: "no_none_pushed g (UpdateMouseButtons K buttons g)"
    by (rule no_none_pushedI [OF UpdateMouseButtons_queue(1) [OF assms]])
       (auto dest: button_edge_types)
  have 6: "what msg \<noteq> B_QUIT_REQUESTED \<longrightarrow> queue (CC_BApp_DispatchMessage msg g) = queue g"
    using CC_BApp_DispatchMessage_queue(1) [OF assms, of msg] by simp
  have 7: "what msg = B_OTHER n \<or> what msg = B_REFS_RECEIVED \<or> what msg = B_WINDOW_MOVED \<longrightarrow>
          queue (CC_BWindow_DispatchMessage K utf8 msg g) = queue g"
    using CC_BWindow_DispatchMessage_unrecognised [of msg n K utf8 g] by blast
  from 1 2 3 4 5 6 7 show ?thesis by blast
qed

theorem C9_no_none_record_pushed_witness:
  "queue_inv (Events_Init globals_0)
   \<and> no_none_pushed (Events_Init globals_0)
        (CC_BWindow_DispatchMessage (\<lambda>_. 1) (\<lambda>bs n. (0, n))
           \<lparr>what = B_MOUSE_DOWN, msg_fields = [(''buttons'', Int32 1)]\<rparr> (Events_Init globals_0))
   \<and> queue (CC_BWindow_DispatchMessage (\<lambda>_. 1) (\<lambda>bs n. (0, n))
           \<lparr>what = B_OTHER 7, msg_fields = [(''key'', Int32 38)]\<rparr> (Events_Init globals_0)) = []
   \<and> queue (CC_BApp_DispatchMessage
           \<lparr>what = B_REFS_RECEIVED, msg_fields = [(''refs'', Ref ''/boot/home/a.cw'')]\<rparr> (Events_Init globals_0)) = []"
  using C9_no_none_record_pushed [OF Events_Init_queue(2), of
      "\<lparr>what = B_MOUSE_DOWN, msg_fields = [(''buttons'', Int32 1)]\<rparr>" "\<lambda>_. 1" "\<lambda>bs n. (0, n)"]
    C9_no_none_record_pushed [OF Events_Init_queue(2), of
      "\<lparr>what = B_OTHER 7, msg_fields = [(''key'', Int32 38)]\<rparr>" "\<lambda>_. 1" "\<lambda>bs n. (0, n)" _ _ _ 7]
    C9_no_none_record_pushed [OF Events_Init_queue(2), of
      "\<lparr>what = B_REFS_RECEIVED, msg_fields = [(''refs'', Ref ''/boot/home/a.cw'')]\<rparr>"]
  by (simp add: Events_Init_queue)

text \<open>
  C10. From a state that satisfies the queue invariant: a \<^verbatim>\<open>B_KEY_DOWN\<close> message with a
  \<^verbatim>\<open>key\<close> code and \<^verbatim>\<open>bytes\<close> that decode queues exactly a KeyDown record with the raw key
  code, then a KeyInput record with the decoded code point; a \<^verbatim>\<open>B_UNMAPPED_KEY_DOWN\<close>
  message queues the KeyDown record only (nothing without a \<^verbatim>\<open>key\<close> field); a
  \<^verbatim>\<open>B_KEY_DOWN\<close> message whose bytes fail to decode queues the KeyDown record only.
\<close>

theorem C10_key_down_records:
  assumes "queue_inv g"
  shows "(what msg = B_KEY_DOWN \<and> FindInt32 msg ''key'' = Some raw
            \<and> FindString msg ''bytes'' = Some val \<and> utf8 val (length val) = (cp, n) \<and> n \<noteq> 0
          \<longrightarrow> queue (CC_BWindow_DispatchMessage K utf8 msg g)
               = queue g @ [\<lparr>type = CC_KEY_DOWN, v1 = I32 raw, v2 = I32 0\<rparr>,
                            \<lparr>type = CC_KEY_INPUT, v1 = I32 cp, v2 = Indeterminate\<rparr>])
    \<and> (what msg = B_UNMAPPED_KEY_DOWN
          \<longrightarrow> queue (CC_BWindow_DispatchMessage K utf8 msg g)
               = queue g @ (case FindInt32 msg ''key'' of
                              Some raw \<Rightarrow> [\<lparr>type = CC_KEY_DOWN, v1 = I32 raw, v2 = I32 0\<rparr>]
                            | None \<Rightarrow> []))
    \<and> (what msg = B_KEY_DOWN \<and> FindInt32 msg ''key'' = Some raw
            \<and> FindString msg ''bytes'' = Some val \<and> snd (utf8 val (length val)) = 0
          \<longrightarrow> queue (CC_BWindow_DispatchMessage K utf8 msg g)
               = queue g @ [\<lparr>type = CC_KEY_DOWN, v1 = I32 raw, v2 = I32 0\<rparr>])"
proof -
  let ?kd = "\<lambda>raw. \<lparr>type = CC_KEY_DOWN, v1 = I32 raw, v2 = I32 0\<rparr>"
  have p: "queue_inv (Events_Push e g)" "queue (Events_Push e g) = queue g @ [e]" for e
    using Events_Push_queue [OF assms] by simp_all
  have k: "queue (ProcessKeyInput utf8 msg (Events_Push e g)) =
        queue g @ [e] @ (case FindString msg ''bytes'' of
                        None \<Rightarrow> []
                      | Some val \<Rightarrow>
                          if snd (utf8 val (length val)) = 0 then []
                          else [\<lparr>type = CC_KEY_INPUT, v1 = I32 (fst (utf8 val (length val))), v2 = Indeterminate\<rparr>])" for e
    using ProcessKeyInput_queue(1) [OF p(1), of utf8 msg e] by (simp add: p(2))
  have 1: "what msg = B_KEY_DOWN \<and> FindInt32 msg ''key'' = Some raw
            \<and> FindString msg ''bytes'' = Some val \<and> utf8 val (length val) = (cp, n) \<and> n \<noteq> 0
          \<longrightarrow> queue (CC_BWindow_DispatchMessage K utf8 msg g) = queue g @ [?kd raw,
                            \<lparr>type = CC_KEY_INPUT, v1 = I32 cp, v2 = Indeterminate\<rparr>]"
    by (simp add: CC_BWindow_DispatchMessage_def CC_BWindow_switch_def Let_def CCEvent_zero_def k)
  have 2: "what msg = B_UNMAPPED_KEY_DOWN
          \<longrightarrow> queue (CC_BWindow_DispatchMessage K utf8 msg g)
               = queue g @ (case FindInt32 msg ''key'' of Some raw \<Rightarrow> [?kd raw] | None \<Rightarrow> [])"
    by (simp add: CC_BWindow_DispatchMessage_def CC_BWindow_switch_def Let_def CCEvent_zero_def p
          split: option.splits)
  have 3: "what msg = B_KEY_DOWN \<and> FindInt32 msg ''key'' = Some raw
            \<and> FindString msg ''bytes'' = Some val \<and> snd (utf8 val (length val)) = 0
          \<longrightarrow> queue (CC_BWindow_DispatchMessage K utf8 msg g) = queue g @ [?kd raw]"
    by (simp add: CC_BWindow_DispatchMessage_def CC_BWindow_switch_def Let_def CCEvent_zero_def k)
  from 1 2 3 show ?thesis by blast
qed

theorem C10_key_down_records_witness:
  "queue (CC_BWindow_DispatchMessage (\<lambda>_. 1) ascii_decoder
      \<lparr>what = B_KEY_DOWN, msg_fields = [(''key'', Int32 40), (''bytes'', String ''w'')]\<rparr>
      (Events_Init globals_0))
     = [\<lparr>type = CC_KEY_DOWN, v1 = I32 40, v2 = I32 0\<rparr>,
        \<lparr>type = CC_KEY_INPUT, v1 = I32 119, v2 = Indeterminate\<rparr>]
   \<and> queue (CC_BWindow_DispatchMessage (\<lambda>_. 1) ascii_decoder
      \<lparr>what = B_UNMAPPED_KEY_DOWN, msg_fields = [(''key'', Int32 107), (''bytes'', String ''w'')]\<rparr>
      (Events_Init globals_0))
     = [\<lparr>type = CC_KEY_DOWN, v1 = I32 107, v2 = I32 0\<rparr>]
   \<and> queue (CC_BWindow_DispatchMessage (\<lambda>_. 1) ascii_decoder
      \<lparr>what = B_KEY_DOWN, msg_fields = [(''key'', Int32 40), (''bytes'', String [CHR 0xFF])]\<rparr>
      (Events_Init globals_0))
     = [\<lparr>type = CC_KEY_DOWN, v1 = I32 40, v2 = I32 0\<rparr>]"
  using C10_key_down_records [OF Events_Init_queue(2), of
      "\<lparr>what = B_KEY_DOWN, msg_fields = [(''key'', Int32 40), (''bytes'', String ''w'')]\<rparr>"
      40 "''w''" ascii_decoder 119 1 "\<lambda>_. 1"]
    C10_key_down_records [OF Events_Init_queue(2), of
      "\<lparr>what = B_UNMAPPED_KEY_DOWN, msg_fields = [(''key'', Int32 107), (''bytes'', String ''w'')]\<rparr>"
      _ _ ascii_decoder _ _ "\<lambda>_. 1"]
    C10_key_down_records [OF Events_Init_queue(2), of
      "\<lparr>what = B_KEY_DOWN, msg_fields = [(''key'', Int32 40), (''bytes'', String [CHR 0xFF])]\<rparr>"
      40 "[CHR 0xFF]" ascii_decoder _ _ "\<lambda>_. 1"]
  by (simp add: Events_Init_queue FindInt32_def FindString_def ascii_decoder_def)

section \<open>Properties of the event pump\<close>

lemma Window_ProcessEvents_switch_calls:
  "calls (Window_ProcessEvents_switch K event g) = calls g @ switch_calls K event"
  unfolding switch_calls_def
  by (cases "type event"; cases "v1 event"; cases "v2 event")
     (simp_all add: Window_ProcessEvents_switch_def read_i32_def read_f32_def MapNativeKey_def Let_def
        add_call_def globals_0_def)

lemma Window_ProcessEvents_switch_queue [simp]:
  "queue (Window_ProcessEvents_switch K event g) = queue g"
  "queue_inv (Window_ProcessEvents_switch K event g) = queue_inv g"
  by (cases "type event"; cases "v1 event"; cases "v2 event";
      simp add: Window_ProcessEvents_switch_def read_i32_def read_f32_def MapNativeKey_def Let_def
        add_call_def queue_def queue_inv_def)+

lemma Events_Pull_loop_calls [simp]: "calls (Events_Pull_loop i g) = calls g"
  by (induction i g rule: Events_Pull_loop.induct; subst Events_Pull_loop.simps; simp)

lemma Events_Pull_calls [simp]: "calls (snd (Events_Pull g)) = calls g"
  by (simp add: Events_Pull_def Let_def)

lemma Window_ProcessEvents_drains:
  "queue_inv g \<Longrightarrow> queue g = es \<Longrightarrow>
   queue (Window_ProcessEvents K g) = [] \<and> queue_inv (Window_ProcessEvents K g) \<and>
   calls (Window_ProcessEvents K g) = calls g @ concat (map (switch_calls K) es)"
proof (induction es arbitrary: g)
  case Nil
  then have "Events_Pull g = (None, g)"
    by (simp add: Events_Pull_empty queue_empty_iff)
  with Nil show ?case
    by (subst (1 2 3) Window_ProcessEvents.simps) simp
next
  case (Cons e es)
  note p = Events_Pull_nonempty [OF Cons.prems]
  obtain g' where g': "Events_Pull g = (Some e, g')"
    using p(1) by (cases "Events_Pull g") auto
  with p have q: "queue_inv g'" "queue g' = es" by simp_all
  have c: "calls g' = calls g" using Events_Pull_calls [of g] g' by simp
  let ?g = "Window_ProcessEvents_switch K e g'"
  have "queue_inv ?g" "queue ?g = es" using q by simp_all
  from Cons.IH [OF this] g' c show ?case
    by (subst (1 2 3) Window_ProcessEvents.simps) (simp add: Window_ProcessEvents_switch_calls)
qed

lemma unmapped_key_calls:
  assumes "t = CC_KEY_DOWN \<or> t = CC_KEY_UP"
    and "raw < 0 \<or> int (length (key_map K)) \<le> raw \<or> key_map K ! nat raw = 0"
  shows "switch_calls K \<lparr>type = t, v1 = I32 raw, v2 = w\<rparr> = [Platform_Log2 ''Unknown key: %i (%h)'' raw raw]"
  using assms
  by (auto simp: switch_calls_def Window_ProcessEvents_switch_def read_i32_def MapNativeKey_def Let_def
      add_call_def globals_0_def)

text \<open>
  C8. Let the queue hold a KeyDown or KeyUp record whose raw key code is outside the
  lookup table or has the table entry 0. Then \<^verbatim>\<open>MapNativeKey\<close> returns 0 for it, the only
  call the pump makes for the record is the log of the code (no key press or release),
  and \<^verbatim>\<open>Window_ProcessEvents\<close> goes on: it makes the calls of the records before it and of
  the records after it, in order, and leaves the queue empty. The table is read only
  within its bounds.
\<close>

theorem C8_unmapped_key_dropped:
  assumes "queue_inv g"
    and "queue g = pre @ [\<lparr>type = t, v1 = I32 raw, v2 = w\<rparr>] @ post"
    and "t = CC_KEY_DOWN \<or> t = CC_KEY_UP"
    and "raw < 0 \<or> int (length (key_map K)) \<le> raw \<or> key_map K ! nat raw = 0"
  shows "fst (MapNativeKey K raw g) = 0
    \<and> switch_calls K \<lparr>type = t, v1 = I32 raw, v2 = w\<rparr> = [Platform_Log2 ''Unknown key: %i (%h)'' raw raw]
    \<and> calls (Window_ProcessEvents K g) =
         calls g @ concat (map (switch_calls K) pre)
           @ [Platform_Log2 ''Unknown key: %i (%h)'' raw raw]
           @ concat (map (switch_calls K) post)
    \<and> queue (Window_ProcessEvents K g) = []"
proof -
  have 1: "fst (MapNativeKey K raw g) = 0"
    using assms(4) by (auto simp: MapNativeKey_def Let_def)
  note 2 = unmapped_key_calls [OF assms(3,4), of w]
  from Window_ProcessEvents_drains [OF assms(1,2), of K] 1 2 show ?thesis by simp
qed

lemma fold_Events_Push_calls: "calls (fold Events_Push es g) = calls g"
  by (induction es arbitrary: g) (simp_all add: Events_Push_def Let_def split: prod.splits)

lemma length_key_map: "length (key_map K) = 112"
  by (simp add: key_map_def)

lemma key_map_values: "key_map K ! 40 = 87" "key_map K ! 103 = 0"
  by (simp_all add: key_map_def u8_def)

theorem C8_unmapped_key_dropped_witness:
  "calls (Window_ProcessEvents (\<lambda>_. 1) pump_example) =
     [Input_SetPressed 87,
      Platform_Log2 ''Unknown key: %i (%h)'' 200 200,
      Platform_Log2 ''Unknown key: %i (%h)'' 103 103,
      Input_SetReleased 87]
   \<and> queue (Window_ProcessEvents (\<lambda>_. 1) pump_example) = []"
proof -
  define es where "es =
     [\<lparr>type = CC_KEY_DOWN, v1 = I32 40, v2 = I32 0\<rparr>,
      \<lparr>type = CC_KEY_DOWN, v1 = I32 200, v2 = I32 0\<rparr>,
      \<lparr>type = CC_KEY_UP, v1 = I32 103, v2 = I32 0\<rparr>,
      \<lparr>type = CC_KEY_UP, v1 = I32 40, v2 = I32 0\<rparr>]"
  have p: "pump_example = fold Events_Push es (Events_Init globals_0)"
    by (simp only: pump_example_def es_def)
  have i: "queue_inv pump_example"
    unfolding p using fold_Events_Push_queue [OF Events_Init_queue(2), of es] by simp
  have "queue pump_example = es"
    unfolding p using fold_Events_Push_queue [OF Events_Init_queue(2), of es]
    by (simp add: Events_Init_queue(1))
  then have q: "queue pump_example =
      [\<lparr>type = CC_KEY_DOWN, v1 = I32 40, v2 = I32 0\<rparr>] @
      [\<lparr>type = CC_KEY_DOWN, v1 = I32 200, v2 = I32 0\<rparr>] @
      [\<lparr>type = CC_KEY_UP, v1 = I32 103, v2 = I32 0\<rparr>,
       \<lparr>type = CC_KEY_UP, v1 = I32 40, v2 = I32 0\<rparr>]"
    by (simp add: es_def)
  have c: "calls pump_example = []"
    unfolding p by (simp add: fold_Events_Push_calls Events_Init_def globals_0_def)
  have u: "(200::int) < 0 \<or> int (length (key_map (\<lambda>_. 1))) \<le> 200 \<or> key_map (\<lambda>_. 1) ! nat 200 = 0"
    by (simp add: length_key_map)
  have s: "switch_calls (\<lambda>_. 1) \<lparr>type = CC_KEY_DOWN, v1 = I32 40, v2 = I32 0\<rparr> = [Input_SetPressed 87]"
    "switch_calls (\<lambda>_. 1) \<lparr>type = CC_KEY_UP, v1 = I32 103, v2 = I32 0\<rparr> = [Platform_Log2 ''Unknown key: %i (%h)'' 103 103]"
    "switch_calls (\<lambda>_. 1) \<lparr>type = CC_KEY_UP, v1 = I32 40, v2 = I32 0\<rparr> = [Input_SetReleased 87]"
    by (simp_all add: switch_calls_def Window_ProcessEvents_switch_def read_i32_def MapNativeKey_def Let_def
      add_call_def globals_0_def length_key_map key_map_values)
  from C8_unmapped_key_dropped [OF i q _ u] c s show ?thesis by simp
qed

section \<open>Properties of the terminal backend\<close>

lemma HookTerminal_stdout:
  "stdout (HookTerminal t) = stdout t @
     CHR 0x1B # ''[?1049h'' @ CHR 0x1B # ''[0m'' @ CHR 0x1B # ''[2J'' @ CHR 0x1B # ''[?1003h''
       @ CHR 0x1B # ''[?1015h'' @ CHR 0x1B # ''[?1006h'' @ CHR 0x1B # ''[?251''"
  by (simp add: HookTerminal_def Let_def printf_def CSI_def DEC_PM_SET_def DEC_PM_RESET_def ERASE_CMD_def)

lemma UnhookTerminal_stdout:
  "stdout (UnhookTerminal t) = stdout t @
     CHR 0x1B # ''[?10491'' @ CHR 0x1B # ''[0m'' @ CHR 0x1B # ''[2J'' @ CHR 0x1B # ''[?10031''
       @ CHR 0x1B # ''[?10151'' @ CHR 0x1B # ''[?10061'' @ CHR 0x1B # ''[?25h''"
  by (simp add: UnhookTerminal_def Let_def printf_def CSI_def DEC_PM_SET_def DEC_PM_RESET_def ERASE_CMD_def)

text \<open>
  C7. What the code writes: \<^verbatim>\<open>DEC_PM_RESET\<close> ends in the digit \<open>1\<close> where a DEC private mode
  reset ends in the letter \<open>l\<close>. On entry the last sequence is \<open>ESC[?251\<close>, not the
  cursor-hiding \<open>ESC[?25l\<close>; on exit the alternate screen and the three mouse modes are
  followed by \<open>1\<close>, not \<open>l\<close>. Neither output is the sequence of the spec.
\<close>

theorem C7_terminal_sequences_as_coded:
  "stdout (HookTerminal t) = stdout t @
     CHR 0x1B # ''[?1049h'' @ CHR 0x1B # ''[0m'' @ CHR 0x1B # ''[2J'' @ CHR 0x1B # ''[?1003h''
       @ CHR 0x1B # ''[?1015h'' @ CHR 0x1B # ''[?1006h'' @ CHR 0x1B # ''[?251''
   \<and> stdout (UnhookTerminal t) = stdout t @
     CHR 0x1B # ''[?10491'' @ CHR 0x1B # ''[0m'' @ CHR 0x1B # ''[2J'' @ CHR 0x1B # ''[?10031''
       @ CHR 0x1B # ''[?10151'' @ CHR 0x1B # ''[?10061'' @ CHR 0x1B # ''[?25h''
   \<and> stdout (HookTerminal t) \<noteq> stdout t @ spec_entry_sequence
   \<and> stdout (UnhookTerminal t) \<noteq> stdout t @ spec_exit_sequence"
  by (simp add: HookTerminal_stdout UnhookTerminal_stdout spec_entry_sequence_def spec_exit_sequence_def)

lemma ProcessKey_calls:
  "term_calls (ProcessKey K b t) = term_calls t @ key_calls K b"
  by (simp add: ProcessKey_def key_calls_def Let_def term_call_def)

text \<open>
  C6 (amended). When no close is pending, input is available and the first byte of the
  buffer is printable (0x20 to 0x7E), \<^verbatim>\<open>Window_ProcessEvents\<close> makes these calls (after the
  resize notification, if a resize was pending): for a lower-case letter a key press of
  the upper-case letter; for an upper-case letter a key press of it; for the space a
  press and then a release of the space key; for every other printable byte (digits,
  punctuation) no call at all. These are all the calls, whatever the other bytes of the
  buffer are: only \<^verbatim>\<open>buf[0]\<close> is handed to \<^verbatim>\<open>ProcessKey\<close> (lines 854--855).
\<close>

theorem C6_printable_keys:
  assumes "\<not> pendingClose t"
    and "stdin_ready env"
    and "length (read_buf env) = 256"
    and "b = of_char (read_buf env ! 0)"
    and "32 \<le> b" and "b < 127"
  shows "map_option term_calls (Window_ProcessEvents_Terminal K env t) =
           Some (term_calls t @ (if pendingResize t then [Event_RaiseVoid_Resized] else [])
                  @ (if 97 \<le> b \<and> b \<le> 122 then [Input_SetPressed (b - 32)]
                     else if 65 \<le> b \<and> b \<le> 90 then [Input_SetPressed b]
                     else if b = 32 then [Input_SetPressed (K ''CCKEY_SPACE''),
                                          Input_SetReleased (K ''CCKEY_SPACE'')]
                     else []))"
proof -
  have e: "read_buf env ! 0 \<noteq> CHR 0x1B"
    using assms(4,5) by auto
  show ?thesis
    using assms e
    by (auto simp: Window_ProcessEvents_Terminal_def Let_def ProcessKey_calls key_calls_def
          term_call_def UpdateDimensions_def)
qed

theorem C6_printable_keys_witness:
  "map_option term_calls (Window_ProcessEvents_Terminal (\<lambda>_. 7) (key_env (CHR ''q'')) term_0)
     = Some [Input_SetPressed 81]
   \<and> map_option term_calls (Window_ProcessEvents_Terminal (\<lambda>_. 7) (key_env (CHR '' '')) term_0)
     = Some [Input_SetPressed 7, Input_SetReleased 7]
   \<and> map_option term_calls (Window_ProcessEvents_Terminal (\<lambda>_. 7) (key_env (CHR ''Q'')) term_0)
     = Some [Input_SetPressed 81]
   \<and> map_option term_calls (Window_ProcessEvents_Terminal (\<lambda>_. 7) (key_env (CHR '';'')) term_0)
     = Some []
   \<and> map_option term_calls
        (Window_ProcessEvents_Terminal (\<lambda>_. 7) (two_key_env (CHR ''a'') (CHR ''b'')) term_0)
     = Some [Input_SetPressed 65]"
  using C6_printable_keys [of term_0 "key_env (CHR ''q'')" 113 "\<lambda>_. 7"]
    C6_printable_keys [of term_0 "two_key_env (CHR ''a'') (CHR ''b'')" 97 "\<lambda>_. 7"]
    C6_printable_keys [of term_0 "key_env (CHR '' '')" 32 "\<lambda>_. 7"]
    C6_printable_keys [of term_0 "key_env (CHR ''Q'')" 81 "\<lambda>_. 7"]
    C6_printable_keys [of term_0 "key_env (CHR '';'')" 59 "\<lambda>_. 7"]
  by (simp add: key_env_def two_key_env_def term_0_def)

text \<open>
  C6 as stated fails in two ways. For the digit \<open>1\<close> no key press is made. When one read
  returns the two letters \<open>a\<close> and \<open>b\<close>, the only call is the press of \<open>A\<close> (65): the
  printable byte \<open>b\<close>, received outside an escape sequence, gives no key press.
\<close>

theorem C6_printable_bytes_counterexample:
  "map_option term_calls (Window_ProcessEvents_Terminal (\<lambda>_. 7) (key_env (CHR ''1'')) term_0)
     = Some []
   \<and> map_option term_calls
        (Window_ProcessEvents_Terminal (\<lambda>_. 7) (two_key_env (CHR ''a'') (CHR ''b'')) term_0)
     = Some [Input_SetPressed 65]"
  by (simp add: key_env_def two_key_env_def term_0_def Window_ProcessEvents_Terminal_def Let_def
        ProcessKey_def term_call_def)

lemmas mouse_eval = mouse_env_def term_0_def Window_ProcessEvents_Terminal_def Let_def ProcessMouse_def
      strncpy_def strtok_def ExtractXY_def atoi_def isdigit_def isspace_def NUL_def term_call_def
      eval_nat_numeral

lemma mouse_report_clean_buffer:
  "map_option term_calls (Window_ProcessEvents_Terminal K
      (mouse_env (CHR 0x1B # ''[<0;10;5M'' @ replicate 246 NUL) 10 (replicate 258 NUL)) term_0)
   = Some [Pointer_SetPosition 0 10 10, Input_SetNonRepeatable (K ''CCMOUSE_L'') True]"
  by (simp add: mouse_eval)

lemma mouse_report_stale_byte:
  "map_option term_calls (Window_ProcessEvents_Terminal K
      (mouse_env (CHR 0x1B # ''[<0;10;5M'' @ CHR ''m'' # replicate 245 NUL) 10 (replicate 258 NUL)) term_0)
   = Some [Pointer_SetPosition 0 10 10, Input_SetNonRepeatable (K ''CCMOUSE_L'') False]"
  by (simp add: mouse_eval)

lemma mouse_report_two_in_one_read:
  "map_option term_calls (Window_ProcessEvents_Terminal K
      (mouse_env (CHR 0x1B # ''[<0;10;5M'' @ CHR 0x1B # ''[<0;10;5m'' @ replicate 236 NUL) 20
         (replicate 258 NUL)) term_0)
   = Some [Pointer_SetPosition 0 10 10, Input_SetNonRepeatable (K ''CCMOUSE_L'') False]"
  by (simp add: mouse_eval)

text \<open>
  The outcome depends on the byte behind the ten bytes read, whatever follows it in the
  two arrays: a NUL there gives the press, an \<open>m\<close> there the release.
\<close>

lemma mouse_report_any_remainder:
  assumes "length rest = 245" and "length junk = 247"
  shows "map_option term_calls (Window_ProcessEvents_Terminal K
      (mouse_env (CHR 0x1B # ''[<0;10;5M'' @ NUL # rest) 10 (replicate 10 NUL @ NUL # junk)) term_0)
   = Some [Pointer_SetPosition 0 10 10, Input_SetNonRepeatable (K ''CCMOUSE_L'') True]"
    and "map_option term_calls (Window_ProcessEvents_Terminal K
      (mouse_env (CHR 0x1B # ''[<0;10;5M'' @ CHR ''m'' # rest) 10 (replicate 10 NUL @ NUL # junk)) term_0)
   = Some [Pointer_SetPosition 0 10 10, Input_SetNonRepeatable (K ''CCMOUSE_L'') False]"
  using assms by (simp_all add: mouse_eval)

text \<open>
  C4. The report \<open>ESC [ < 0 ; 10 ; 5 M\<close> read into a buffer whose other bytes are NUL
  gives the pointer position (10, 10) and a press of the left button. The same ten bytes
  read into a buffer whose next byte holds an \<open>m\<close> (the array is not initialised and the
  input is not NUL-terminated), or followed in the same read by the release report, give
  a release: \<^verbatim>\<open>strchr(buf, 'm')\<close> scans the whole array, not the report's terminator.
\<close>

theorem C4_mouse_report_decoding:
  "map_option term_calls (Window_ProcessEvents_Terminal K
      (mouse_env (CHR 0x1B # ''[<0;10;5M'' @ replicate 246 NUL) 10 (replicate 258 NUL)) term_0)
   = Some [Pointer_SetPosition 0 10 10, Input_SetNonRepeatable (K ''CCMOUSE_L'') True]
   \<and> map_option term_calls (Window_ProcessEvents_Terminal K
      (mouse_env (CHR 0x1B # ''[<0;10;5M'' @ CHR ''m'' # replicate 245 NUL) 10 (replicate 258 NUL)) term_0)
   = Some [Pointer_SetPosition 0 10 10, Input_SetNonRepeatable (K ''CCMOUSE_L'') False]
   \<and> map_option term_calls (Window_ProcessEvents_Terminal K
      (mouse_env (CHR 0x1B # ''[<0;10;5M'' @ CHR 0x1B # ''[<0;10;5m'' @ replicate 236 NUL) 20
         (replicate 258 NUL)) term_0)
   = Some [Pointer_SetPosition 0 10 10, Input_SetNonRepeatable (K ''CCMOUSE_L'') False]"
  using mouse_report_clean_buffer mouse_report_stale_byte mouse_report_two_in_one_read
  by blast

lemma and_not_1_int: "(y::int) AND NOT 1 = 2 * (y div 2)"
proof (rule bit_eqI)
  fix n
  have "bit (y AND NOT 1) n = (bit y n \<and> n \<noteq> 0)"
    by (simp only: bit_and_iff bit_not_iff_eq bit_1_iff) simp
  also have "\<dots> = bit (2 * (y div 2)) n"
    by (cases n) (simp_all add: bit_double_iff bit_Suc)
  finally show "bit (y AND NOT 1) n = bit (2 * (y div 2)) n" .
qed

lemma c_div_even: "even (y::int) \<Longrightarrow> c_div y 2 = y div 2"
  by (auto simp: c_div_def abs_if elim!: evenE)

lemma those_append:
  "those (xs @ ys) = (case those xs of None \<Rightarrow> None
                      | Some as \<Rightarrow> (case those ys of None \<Rightarrow> None | Some bs \<Rightarrow> Some (as @ bs)))"
  by (induction xs) (auto split: option.splits)


lemma DrawFramebuffer_x_eq:
  "even y \<Longrightarrow>
   DrawFramebuffer_x GetPixel bmp r y x =
     those (map (half_block_cell GetPixel bmp y) [x .. Rect2D_x r + Rect2D_width r - 1])"
proof (induction GetPixel bmp r y x rule: DrawFramebuffer_x.induct)
  case (1 GetPixel bmp r y x)
  let ?e = "Rect2D_x r + Rect2D_width r"
  show ?case
  proof (cases "x < ?e")
    case True
    then have u: "[x .. ?e - 1] = x # [x + 1 .. ?e - 1]"
      by (simp add: upto_rec1)
    show ?thesis
    proof (cases "GetPixel bmp x y")
      case None
      then have "half_block_cell GetPixel bmp y x = None" by (simp add: half_block_cell_def)
      with None True show ?thesis
        by (subst DrawFramebuffer_x.simps) (simp add: u)
    next
      case (Some t)
      show ?thesis
      proof (cases "GetPixel bmp x (y + 1)")
        case None
        with Some have "half_block_cell GetPixel bmp y x = None" by (simp add: half_block_cell_def)
        with None Some True show ?thesis
          by (subst DrawFramebuffer_x.simps) (simp add: u)
      next
        case b: (Some b)
        from Some b have h: "half_block_cell GetPixel bmp y x
            = Some \<lparr>bg = t, fg = b, cell_row = c_div y 2, cell_col = x\<rparr>"
          using "1.prems" by (simp add: half_block_cell_def c_div_even)
        have ih: "DrawFramebuffer_x GetPixel bmp r y (x + 1)
            = those (map (half_block_cell GetPixel bmp y) [x + 1 .. ?e - 1])"
          using "1.IH" [OF True _ b "1.prems"] Some by simp
        show ?thesis
          using True Some b
          by (subst DrawFramebuffer_x.simps) (simp add: u h ih split: option.splits)
      qed
    qed
  next
    case False
    then show ?thesis
      by (subst DrawFramebuffer_x.simps) simp
  qed
qed

lemma filter_even_upto:
  "even (y::int) \<Longrightarrow> y < e \<Longrightarrow> filter even [y .. e - 1] = y # filter even [y + 2 .. e - 1]"
proof -
  assume y: "even y" "y < e"
  have 1: "[y .. e - 1] = y # [y + 1 .. e - 1]" using y by (simp add: upto_rec1)
  show ?thesis
  proof (cases "y + 1 < e")
    case True
    then have "[y + 1 .. e - 1] = (y + 1) # [y + 2 .. e - 1]"
      using upto_rec1 [of "y + 1" "e - 1"] by (simp add: add.commute)
    with 1 y show ?thesis by simp
  next
    case False
    then have "[y + 1 .. e - 1] = []" "[y + 2 .. e - 1] = []" by simp_all
    with 1 y show ?thesis by simp
  qed
qed

lemma DrawFramebuffer_y_eq:
  "even y \<Longrightarrow>
   DrawFramebuffer_y GetPixel bmp r y =
     those (concat (map (\<lambda>y. map (half_block_cell GetPixel bmp y) (columns r))
                        (filter even [y .. Rect2D_y r + Rect2D_height r - 1])))"
proof (induction GetPixel bmp r y rule: DrawFramebuffer_y.induct)
  case (1 GetPixel bmp r y)
  show ?case
  proof (cases "y < Rect2D_y r + Rect2D_height r")
    case True
    note f = filter_even_upto [OF "1.prems" True]
    have e: "even (y + 2)" using "1.prems" by simp
    show ?thesis
      using True "1.IH" [OF True _ e] "1.prems"
      by (subst DrawFramebuffer_y.simps)
         (auto simp: f those_append DrawFramebuffer_x_eq columns_def split: option.splits)
  next
    case False
    then show ?thesis
      by (subst DrawFramebuffer_y.simps) simp
  qed
qed

lemma Window_DrawFramebuffer_Terminal_eq:
  "Window_DrawFramebuffer_Terminal GetPixel r bmp = half_block_cells GetPixel r bmp"
proof -
  have "Rect2D_y r AND NOT 1 = 2 * (Rect2D_y r div 2)"
    by (rule and_not_1_int)
  also have "\<dots> = Rect2D_y r - Rect2D_y r mod 2"
    by (simp add: minus_mod_eq_mult_div)
  finally have 1: "Window_DrawFramebuffer_Terminal GetPixel r bmp
      = DrawFramebuffer_y GetPixel bmp r (Rect2D_y r - Rect2D_y r mod 2)"
    by (simp only: Window_DrawFramebuffer_Terminal_def)
  have 2: "even (Rect2D_y r - Rect2D_y r mod 2)"
    by (simp add: minus_mod_eq_mult_div)
  show ?thesis
    unfolding 1 by (simp add: half_block_cells_def row_pairs_def DrawFramebuffer_y_eq [OF 2])
qed

text \<open>
  C5 (amended). \<^verbatim>\<open>Window_DrawFramebuffer\<close> emits the cells of the spec's encoding: the rows
  two at a time from the start row rounded down to an even boundary, one cell per column
  and row pair, background = top pixel, foreground = bottom pixel, terminal row = pixel
  row / 2; nothing when a pixel access fails. So a rectangle of 2 by 2 pixels that starts
  on an even row gives two cells, one per column, and one that starts on an odd row gives
  four cells (two row pairs); a rectangle one pixel wide and two high gives exactly one
  cell when it starts on an even row and two cells when it starts on an odd row.
\<close>

theorem C5_half_block_cells:
  "Window_DrawFramebuffer_Terminal GetPixel r bmp = half_block_cells GetPixel r bmp
   \<and> (even y0 \<longrightarrow>
        Window_DrawFramebuffer_Terminal GetPixel
          \<lparr>Rect2D_x = x0, Rect2D_y = y0, Rect2D_width = 2, Rect2D_height = 2\<rparr> bmp
        = those [half_block_cell GetPixel bmp y0 x0, half_block_cell GetPixel bmp y0 (x0 + 1)])
   \<and> (even y0 \<longrightarrow>
        Window_DrawFramebuffer_Terminal GetPixel
          \<lparr>Rect2D_x = x0, Rect2D_y = y0, Rect2D_width = 1, Rect2D_height = 2\<rparr> bmp
        = those [half_block_cell GetPixel bmp y0 x0])
   \<and> (odd y0 \<longrightarrow>
        Window_DrawFramebuffer_Terminal GetPixel
          \<lparr>Rect2D_x = x0, Rect2D_y = y0, Rect2D_width = 2, Rect2D_height = 2\<rparr> bmp
        = those [half_block_cell GetPixel bmp (y0 - 1) x0, half_block_cell GetPixel bmp (y0 - 1) (x0 + 1),
                 half_block_cell GetPixel bmp (y0 + 1) x0, half_block_cell GetPixel bmp (y0 + 1) (x0 + 1)])
   \<and> (odd y0 \<longrightarrow>
        Window_DrawFramebuffer_Terminal GetPixel
          \<lparr>Rect2D_x = x0, Rect2D_y = y0, Rect2D_width = 1, Rect2D_height = 2\<rparr> bmp
        = those [half_block_cell GetPixel bmp (y0 - 1) x0, half_block_cell GetPixel bmp (y0 + 1) x0])"
proof -
  let ?r = "\<lambda>w. \<lparr>Rect2D_x = x0, Rect2D_y = y0, Rect2D_width = w, Rect2D_height = 2\<rparr>"
  have c2: "columns (?r 2) = [x0, x0 + 1]" and c1: "columns (?r 1) = [x0]"
    by (simp_all add: columns_def upto_rec1)
  have re: "row_pairs (?r w) = [y0]" if "even y0" for w
  proof -
    from that have "y0 mod 2 = 0" by (simp add: even_iff_mod_2_eq_zero)
    moreover from that have "filter even [y0 .. (y0 + 2) - 1] = y0 # filter even [y0 + 2 .. (y0 + 2) - 1]"
      by (intro filter_even_upto) simp_all
    ultimately show ?thesis by (simp add: row_pairs_def)
  qed
  have ro: "row_pairs (?r w) = [y0 - 1, y0 + 1]" if o: "odd y0" for w
  proof -
    from o have m: "y0 mod 2 = 1" by (simp add: odd_iff_mod_2_eq_one)
    from o have "filter even [y0 - 1 .. (y0 + 2) - 1] = (y0 - 1) # filter even [y0 - 1 + 2 .. (y0 + 2) - 1]"
      by (intro filter_even_upto) simp_all
    moreover from o have "filter even [y0 + 1 .. (y0 + 2) - 1] = (y0 + 1) # filter even [y0 + 1 + 2 .. (y0 + 2) - 1]"
      by (intro filter_even_upto) simp_all
    ultimately show ?thesis using m o by (simp add: row_pairs_def)
  qed
  have 1: "Window_DrawFramebuffer_Terminal GetPixel r bmp = half_block_cells GetPixel r bmp"
    by (rule Window_DrawFramebuffer_Terminal_eq)
  have 2: "Window_DrawFramebuffer_Terminal GetPixel (?r 2) bmp
        = those [half_block_cell GetPixel bmp y0 x0, half_block_cell GetPixel bmp y0 (x0 + 1)]"
    if "even y0"
    by (simp only: Window_DrawFramebuffer_Terminal_eq half_block_cells_def c2 re [OF that]) simp
  have 3: "Window_DrawFramebuffer_Terminal GetPixel (?r 1) bmp
        = those [half_block_cell GetPixel bmp y0 x0]"
    if "even y0"
    by (simp only: Window_DrawFramebuffer_Terminal_eq half_block_cells_def c1 re [OF that]) simp
  have 4: "Window_DrawFramebuffer_Terminal GetPixel (?r 2) bmp
        = those [half_block_cell GetPixel bmp (y0 - 1) x0, half_block_cell GetPixel bmp (y0 - 1) (x0 + 1),
                 half_block_cell GetPixel bmp (y0 + 1) x0, half_block_cell GetPixel bmp (y0 + 1) (x0 + 1)]"
    if "odd y0"
    by (simp only: Window_DrawFramebuffer_Terminal_eq half_block_cells_def c2 ro [OF that]) simp
  have 5: "Window_DrawFramebuffer_Terminal GetPixel (?r 1) bmp
        = those [half_block_cell GetPixel bmp (y0 - 1) x0, half_block_cell GetPixel bmp (y0 + 1) x0]"
    if "odd y0"
    by (simp only: Window_DrawFramebuffer_Terminal_eq half_block_cells_def c1 ro [OF that]) simp
  from 1 2 3 4 5 show ?thesis by blast
qed

theorem C5_half_block_cells_witness:
  "Window_DrawFramebuffer_Terminal rows_GetPixel
      \<lparr>Rect2D_x = 0, Rect2D_y = 0, Rect2D_width = 2, Rect2D_height = 2\<rparr> [[1, 2], [3, 4]]
     = Some [\<lparr>bg = 1, fg = 3, cell_row = 0, cell_col = 0\<rparr>, \<lparr>bg = 2, fg = 4, cell_row = 0, cell_col = 1\<rparr>]
   \<and> Window_DrawFramebuffer_Terminal rows_GetPixel
      \<lparr>Rect2D_x = 1, Rect2D_y = 2, Rect2D_width = 1, Rect2D_height = 2\<rparr> [[1, 2], [3, 4], [5, 6], [7, 8]]
     = Some [\<lparr>bg = 6, fg = 8, cell_row = 1, cell_col = 1\<rparr>]
   \<and> Window_DrawFramebuffer_Terminal rows_GetPixel
      \<lparr>Rect2D_x = 0, Rect2D_y = 1, Rect2D_width = 2, Rect2D_height = 2\<rparr> [[1, 2], [3, 4], [5, 6], [7, 8]]
     = Some [\<lparr>bg = 1, fg = 3, cell_row = 0, cell_col = 0\<rparr>, \<lparr>bg = 2, fg = 4, cell_row = 0, cell_col = 1\<rparr>,
             \<lparr>bg = 5, fg = 7, cell_row = 1, cell_col = 0\<rparr>, \<lparr>bg = 6, fg = 8, cell_row = 1, cell_col = 1\<rparr>]
   \<and> Window_DrawFramebuffer_Terminal rows_GetPixel
      \<lparr>Rect2D_x = 1, Rect2D_y = 1, Rect2D_width = 1, Rect2D_height = 2\<rparr> [[1, 2], [3, 4], [5, 6], [7, 8]]
     = Some [\<lparr>bg = 2, fg = 4, cell_row = 0, cell_col = 1\<rparr>, \<lparr>bg = 6, fg = 8, cell_row = 1, cell_col = 1\<rparr>]"
  using C5_half_block_cells [THEN conjunct2, of 0 rows_GetPixel 0 "[[1, 2], [3, 4]]"]
    C5_half_block_cells [THEN conjunct2, of 1 rows_GetPixel 1 "[[1, 2], [3, 4], [5, 6], [7, 8]]"]
    C5_half_block_cells [THEN conjunct2, of 2 rows_GetPixel 1 "[[1, 2], [3, 4], [5, 6], [7, 8]]"]
    C5_half_block_cells [THEN conjunct2, of 1 rows_GetPixel 0 "[[1, 2], [3, 4], [5, 6], [7, 8]]"]
  by (simp add: half_block_cell_def rows_GetPixel_def)

text \<open>
  C5 as stated fails for a rectangle of 2 by 2 pixels: two cells are emitted when it
  starts on row 0, and four when it starts on row 1, never one.
\<close>

theorem C5_two_by_two_counterexample:
  "Window_DrawFramebuffer_Terminal rows_GetPixel
      \<lparr>Rect2D_x = 0, Rect2D_y = 0, Rect2D_width = 2, Rect2D_height = 2\<rparr> [[1, 2], [3, 4]]
     = Some [\<lparr>bg = 1, fg = 3, cell_row = 0, cell_col = 0\<rparr>, \<lparr>bg = 2, fg = 4, cell_row = 0, cell_col = 1\<rparr>]
   \<and> Window_DrawFramebuffer_Terminal rows_GetPixel
      \<lparr>Rect2D_x = 0, Rect2D_y = 1, Rect2D_width = 2, Rect2D_height = 2\<rparr> [[1, 2], [3, 4], [5, 6], [7, 8]]
     = Some [\<lparr>bg = 1, fg = 3, cell_row = 0, cell_col = 0\<rparr>, \<lparr>bg = 2, fg = 4, cell_row = 0, cell_col = 1\<rparr>,
             \<lparr>bg = 5, fg = 7, cell_row = 1, cell_col = 0\<rparr>, \<lparr>bg = 6, fg = 8, cell_row = 1, cell_col = 1\<rparr>]"
  by (simp add: Window_DrawFramebuffer_Terminal_def DrawFramebuffer_y.simps DrawFramebuffer_x.simps
        rows_GetPixel_def c_div_def)

end
